theory Spec2Isabelle
  imports Main "HOL-Library.Word"
begin

unbundle bit_operations_syntax

section \<open>Common types\<close>

text \<open>
  The kernel is embedded function by function.  A C function that mutates the kernel
  control block takes the state and returns the new one; \<open>panic\<close> never returns in
  the source (it halts the machine), so a function that may reach it yields an
  \<open>outcome\<close>: either \<open>Panic code\<close> or \<open>Return value\<close>.
\<close>

text \<open>The error codes of \<open>private/error.h\<close>, by name (an enum in the source).\<close>

datatype errcode =
    ERR_OK | ERR_FAIL | ERR_NO_TASKS | ERR_KCB_ALLOC | ERR_TCB_ALLOC | ERR_STACK_ALLOC
  | ERR_TASK_CANT_REMOVE | ERR_TASK_NOT_FOUND | ERR_TASK_CANT_SUSPEND
  | ERR_TASK_CANT_RESUME | ERR_TASK_INVALID_PRIO | ERR_TASK_BUSY | ERR_NOT_OWNER
  | ERR_STACK_CHECK | ERR_SEM_OPERATION | ERR_TIMEOUT | ERR_MQ_NOTEMPTY | ERR_UNKNOWN

datatype 'a outcome = Panic errcode | Return 'a

text \<open>\<open>enum task_states\<close> of \<open>sys/task.h\<close>.\<close>

datatype task_states = TASK_STOPPED | TASK_READY | TASK_RUNNING | TASK_BLOCKED | TASK_SUSPENDED

text \<open>\<open>enum task_priorities\<close> of \<open>sys/task.h\<close>.\<close>

definition TASK_PRIO_CRIT :: "16 word" where "TASK_PRIO_CRIT = 0x0101"
definition TASK_PRIO_REALTIME :: "16 word" where "TASK_PRIO_REALTIME = 0x0303"
definition TASK_PRIO_HIGH :: "16 word" where "TASK_PRIO_HIGH = 0x0707"
definition TASK_PRIO_ABOVE :: "16 word" where "TASK_PRIO_ABOVE = 0x0F0F"
definition TASK_PRIO_NORMAL :: "16 word" where "TASK_PRIO_NORMAL = 0x1F1F"
definition TASK_PRIO_BELOW :: "16 word" where "TASK_PRIO_BELOW = 0x3F3F"
definition TASK_PRIO_LOW :: "16 word" where "TASK_PRIO_LOW = 0x7F7F"
definition TASK_PRIO_IDLE :: "16 word" where "TASK_PRIO_IDLE = 0xFFFF"

definition SCHED_IMAX :: nat where "SCHED_IMAX = 500"
definition MIN_TASK_STACK_SIZE :: nat where "MIN_TASK_STACK_SIZE = 256"
definition STACK_CHECK_INTERVAL :: "32 word" where "STACK_CHECK_INTERVAL = 32"
definition TASK_CACHE_SIZE :: nat where "TASK_CACHE_SIZE = 4"
definition STACK_CANARY :: "32 word" where "STACK_CANARY = 0x33333333"

text \<open>
  \<open>tcb_t\<close>.  Pointers are natural numbers with \<open>0\<close> for \<open>NULL\<close>.  The saved
  context is not modelled.  Of the stack memory the model keeps the two words the
  kernel reads back: the canaries at \<open>stack\<close> and at \<open>stack + stack_sz - 4\<close>.
  The field \<open>id\<close> of the source is \<open>tcb_id\<close> here.
\<close>

record tcb_t =
  stack :: nat
  stack_sz :: nat
  entry :: nat
  prio :: "16 word"
  delay :: "16 word"
  tcb_id :: "16 word"
  state :: task_states
  flags :: "8 word"
  rt_prio :: nat
  lo_canary :: "32 word"
  hi_canary :: "32 word"

text \<open>
  \<open>kcb_t\<close>, together with the file-level statics of the task module
  (\<open>stack_check_counter\<close>, \<open>task_cache\<close>, \<open>cache_index\<close>).  The task list
  \<open>tasks\<close> is \<open>None\<close> while the list pointer is \<open>NULL\<close>; a list node is
  identified with its position in the list, and a pointer to a TCB with the position
  of its node (\<open>mo_task_cancel\<close>, the only operation that removes a node, is not part
  of this development).  The real-time hook \<open>rt_sched\<close> is used by \<open>dispatch\<close> only
  and is left out.
\<close>

record kcb_t =
  tasks :: "tcb_t list option"
  task_current :: "nat option"
  next_tid :: "16 word"
  task_count :: "16 word"
  preemptive :: bool
  last_ready_hint :: "nat option"
  timer_list :: "nat list option"
  ticks :: "32 word"
  stack_check_counter :: "32 word"
  task_cache :: "(16 word \<times> nat option) list"
  cache_index :: "8 word"

text \<open>\<open>kernel_state\<close>, the initial value of the kernel control block.\<close>

definition kernel_state :: kcb_t where
  "kernel_state = \<lparr>tasks = None, task_current = None, next_tid = 1, task_count = 0,
     preemptive = True, last_ready_hint = None, timer_list = None, ticks = 0,
     stack_check_counter = 0,
     task_cache = [(0, None), (0, None), (0, None), (0, None)], cache_index = 0\<rparr>"

section \<open>Intrusive list helpers\<close>

text \<open>
  Modelled from the spec: \<open>lib/list.h\<close> is not among the sources.  The spec
  describes a doubly-linked list with sentinel head and tail, used as an ordered
  circular list of all TCBs and as a FIFO of waiters.  A list is the HOL list of the
  data of its real nodes, head first.
\<close>

definition task_nodes :: "kcb_t \<Rightarrow> tcb_t list" where
  "task_nodes k = (case tasks k of None \<Rightarrow> [] | Some xs \<Rightarrow> xs)"

definition set_node :: "nat \<Rightarrow> tcb_t \<Rightarrow> kcb_t \<Rightarrow> kcb_t" where
  "set_node n t k = k\<lparr>tasks := map_option (\<lambda>xs. xs[n := t]) (tasks k)\<rparr>"

text \<open>
  Modelled from the spec: \<open>list_cnext\<close> (circular successor, skipping the sentinels).
  \<open>NULL\<close> for a \<open>NULL\<close> list or a node that is not in it.
\<close>

definition list_cnext :: "'a list option \<Rightarrow> nat \<Rightarrow> nat option" where
  "list_cnext l node =
     (case l of
        None \<Rightarrow> None
      | Some xs \<Rightarrow> if node < length xs then Some (Suc node mod length xs) else None)"

text \<open>
  Modelled from the spec: \<open>list_foreach\<close> calls the callback on every node in order
  and stops at the first node for which the callback returns non-\<open>NULL\<close>; the result
  is that node.  A callback is a function from the node's data to the data it leaves
  there and whether it returned the node.
\<close>

fun list_foreach :: "('a \<Rightarrow> 'a \<times> bool) \<Rightarrow> 'a list \<Rightarrow> 'a list \<times> nat option" where
  "list_foreach cb [] = ([], None)"
| "list_foreach cb (x # xs) =
     (case cb x of
        (x', True) \<Rightarrow> (x' # xs, Some 0)
      | (x', False) \<Rightarrow>
          (case list_foreach cb xs of (xs', r) \<Rightarrow> (x' # xs', map_option Suc r)))"

text \<open>Modelled from the spec: \<open>list_is_empty\<close>, \<open>list_pop\<close> (remove the head and
  return its data, \<open>NULL\<close> on an empty list) and \<open>list_pushback\<close>.\<close>

definition list_is_empty :: "'a list \<Rightarrow> bool" where
  "list_is_empty xs = (xs = [])"

definition list_pop :: "'a list \<Rightarrow> 'a option \<times> 'a list" where
  "list_pop xs = (case xs of [] \<Rightarrow> (None, []) | x # r \<Rightarrow> (Some x, r))"

definition list_pushback :: "'a list \<Rightarrow> 'a \<Rightarrow> 'a list" where
  "list_pushback xs x = xs @ [x]"

section \<open>Scheduler\<close>

definition is_valid_task :: "tcb_t \<Rightarrow> bool" where
  "is_valid_task task =
     (stack task \<noteq> 0 \<and> MIN_TASK_STACK_SIZE \<le> stack_sz task \<and> entry task \<noteq> 0 \<and> tcb_id task \<noteq> 0)"

text \<open>\<open>task_stack_check\<close>: the canaries are verified every 32nd context switch.\<close>

definition task_stack_check :: "kcb_t \<Rightarrow> kcb_t outcome" where
  "task_stack_check k =
     (let c = stack_check_counter k + 1;
          should_check = (STACK_CHECK_INTERVAL \<le> c);
          k1 = k\<lparr>stack_check_counter := (if should_check then 0 else c)\<rparr>
      in if \<not> should_check then Return k1
         else (case task_current k1 of
                 None \<Rightarrow> Panic ERR_STACK_CHECK
               | Some cur \<Rightarrow>
                   let self = task_nodes k1 ! cur in
                   if \<not> is_valid_task self then Panic ERR_STACK_CHECK
                   else if lo_canary self \<noteq> STACK_CANARY \<or> hi_canary self \<noteq> STACK_CANARY
                        then Panic ERR_STACK_CHECK
                        else Return k1))"

text \<open>\<open>delay_update\<close>, the \<open>list_foreach\<close> callback that ages delays (named
  \<open>delay_update_node\<close> here: the record package owns \<open>delay_update\<close>).  It always
  returns \<open>NULL\<close>.\<close>

definition delay_update_node :: "tcb_t \<Rightarrow> tcb_t \<times> bool" where
  "delay_update_node t =
     (if state t = TASK_BLOCKED \<and> delay t > 0
      then (let d = delay t - 1
            in if d = 0 then (t\<lparr>delay := d, state := TASK_READY\<rparr>, False)
               else (t\<lparr>delay := d\<rparr>, False))
      else (t, False))"

definition delay_update_all :: "kcb_t \<Rightarrow> kcb_t" where
  "delay_update_all k =
     k\<lparr>tasks := map_option (\<lambda>xs. fst (list_foreach delay_update_node xs)) (tasks k)\<rparr>"

text \<open>
  The counter arithmetic of \<open>find_next_ready_task\<close>: \<open>uint8_t counter\<close> is the low
  byte of the priority word; \<open>prio_reload\<close> copies the base byte into the counter.
\<close>

definition prio_counter :: "16 word \<Rightarrow> 8 word" where
  "prio_counter p = ucast (p AND 0xFF)"

definition prio_base :: "16 word \<Rightarrow> 8 word" where
  "prio_base p = ucast (drop_bit 8 p AND 0xFF)"

definition prio_set_counter :: "16 word \<Rightarrow> 8 word \<Rightarrow> 16 word" where
  "prio_set_counter p counter = (p AND 0xFF00) OR ucast counter"

definition prio_reload :: "16 word \<Rightarrow> 16 word" where
  "prio_reload p = prio_set_counter p (prio_base p)"

text \<open>
  The \<open>while (itcnt++ < SCHED_IMAX)\<close> loop of \<open>find_next_ready_task\<close>.  The last
  argument is a ghost variable: the nodes visited so far, in order.  The result is
  the selected node (or \<open>NULL\<close>), the kernel state and the nodes visited.
\<close>

function sched_loop :: "nat \<Rightarrow> nat \<Rightarrow> kcb_t \<Rightarrow> nat list \<Rightarrow> nat option \<times> kcb_t \<times> nat list" where
  "sched_loop itcnt node k vis =
     (if itcnt < SCHED_IMAX then
        (case list_cnext (tasks k) node of
           None \<Rightarrow> (None, k\<lparr>last_ready_hint := None\<rparr>, vis)
         | Some n \<Rightarrow>
             if state (task_nodes k ! n) \<noteq> TASK_READY \<or> rt_prio (task_nodes k ! n) \<noteq> 0
             then sched_loop (Suc itcnt) n k (vis @ [n])
             else if (if prio_counter (prio (task_nodes k ! n)) \<noteq> 0
                      then prio_counter (prio (task_nodes k ! n)) - 1
                      else prio_counter (prio (task_nodes k ! n))) = 0
             then (Some n,
                   (set_node n ((task_nodes k ! n)
                       \<lparr>prio := prio_reload (prio_set_counter (prio (task_nodes k ! n)) 0)\<rparr>) k)
                     \<lparr>last_ready_hint := Some n\<rparr>,
                   vis @ [n])
             else sched_loop (Suc itcnt) n
                    (set_node n ((task_nodes k ! n)
                       \<lparr>prio := prio_set_counter (prio (task_nodes k ! n))
                                  (prio_counter (prio (task_nodes k ! n)) - 1)\<rparr>) k)
                    (vis @ [n]))
      else (None, k\<lparr>last_ready_hint := None\<rparr>, vis))"
  by pat_completeness auto
termination
  by (relation "measure (\<lambda>(itcnt, node, k, vis). SCHED_IMAX - itcnt)") auto

declare sched_loop.simps [simp del]

text \<open>\<open>find_next_ready_task\<close>: the hint shortcut, then the bounded walk from the
  current node.\<close>

definition hint_is_ready :: "kcb_t \<Rightarrow> nat option" where
  "hint_is_ready k =
     (case last_ready_hint k of
        None \<Rightarrow> None
      | Some h \<Rightarrow>
          let hint_task = task_nodes k ! h in
          if state hint_task = TASK_READY \<and> rt_prio hint_task = 0
             \<and> prio_counter (prio hint_task) = 0
          then Some h else None)"

definition find_next_ready_task :: "kcb_t \<Rightarrow> nat option \<times> kcb_t \<times> nat list" where
  "find_next_ready_task k =
     (case task_current k of
        None \<Rightarrow> (None, k, [])
      | Some cur \<Rightarrow>
          (case hint_is_ready k of
             Some h \<Rightarrow>
               (Some h, set_node h ((task_nodes k ! h)\<lparr>prio := prio_reload (prio (task_nodes k ! h))\<rparr>) k, [])
           | None \<Rightarrow> sched_loop 0 cur k []))"

text \<open>\<open>schedule_next_task\<close>.  Its first step, marking the previously running
  task as ready, is \<open>mark_current_ready\<close>.\<close>

definition mark_current_ready :: "nat \<Rightarrow> kcb_t \<Rightarrow> kcb_t" where
  "mark_current_ready cur k =
     (if state (task_nodes k ! cur) = TASK_RUNNING
      then set_node cur ((task_nodes k ! cur)\<lparr>state := TASK_READY\<rparr>) k else k)"

definition schedule_next_task :: "kcb_t \<Rightarrow> (16 word \<times> kcb_t) outcome" where
  "schedule_next_task k =
     (case task_current k of
        None \<Rightarrow> Panic ERR_NO_TASKS
      | Some cur \<Rightarrow>
          (case find_next_ready_task (mark_current_ready cur k) of
             (None, k2, vis) \<Rightarrow> Panic ERR_NO_TASKS
           | (Some next_node, k2, vis) \<Rightarrow>
               let k3 = k2\<lparr>task_current := Some next_node\<rparr>;
                   k4 = set_node next_node ((task_nodes k3 ! next_node)\<lparr>state := TASK_RUNNING\<rparr>) k3
               in Return (tcb_id (task_nodes k4 ! next_node), k4)))"

text \<open>
  \<open>yield\<close>, the cooperative context switch (\<open>_yield\<close> is its weak alias and
  \<open>mo_task_yield\<close> calls it).  The model follows the kernel data up to the
  \<open>longjmp\<close> into the selected task; the register context is not modelled.
\<close>

definition yield :: "kcb_t \<Rightarrow> kcb_t outcome" where
  "yield k =
     (case task_current k of
        None \<Rightarrow> Return k
      | Some cur \<Rightarrow>
          (case task_stack_check k of
             Panic e \<Rightarrow> Panic e
           | Return k1 \<Rightarrow>
               let k2 = (if \<not> preemptive k1 then delay_update_all k1 else k1)
               in (case schedule_next_task k2 of
                     Panic e \<Rightarrow> Panic e
                   | Return (tid, k3) \<Rightarrow> Return k3)))"

definition mo_task_yield :: "kcb_t \<Rightarrow> kcb_t outcome" where
  "mo_task_yield k = yield k"

section \<open>Task management API\<close>

text \<open>The task lookup cache: \<open>cache_task\<close> and \<open>cache_lookup_task\<close>.\<close>

definition cache_task :: "16 word \<Rightarrow> nat \<Rightarrow> kcb_t \<Rightarrow> kcb_t" where
  "cache_task i task k =
     k\<lparr>task_cache := (task_cache k)[unat (cache_index k) := (i, Some task)],
       cache_index := of_nat ((unat (cache_index k) + 1) mod TASK_CACHE_SIZE)\<rparr>"

definition cache_lookup_task :: "16 word \<Rightarrow> kcb_t \<Rightarrow> nat option" where
  "cache_lookup_task i k =
     (case find (\<lambda>(cid, p). cid = i \<and>
                   (case p of None \<Rightarrow> False | Some t \<Rightarrow> is_valid_task (task_nodes k ! t)))
             (take TASK_CACHE_SIZE (task_cache k)) of
        None \<Rightarrow> None
      | Some (cid, p) \<Rightarrow> p)"

text \<open>\<open>idcmp\<close>, the \<open>list_foreach\<close> callback that compares task ids.\<close>

definition idcmp :: "16 word \<Rightarrow> tcb_t \<Rightarrow> tcb_t \<times> bool" where
  "idcmp i t = (t, tcb_id t = i)"

text \<open>
  \<open>find_task_node_by_id\<close>.  A cached TCB pointer is searched for in the list (its
  node is the one at that position, when the list is that long); otherwise the list
  is searched by id and the cache updated.
\<close>

definition find_task_node_by_id :: "16 word \<Rightarrow> kcb_t \<Rightarrow> nat option \<times> kcb_t" where
  "find_task_node_by_id i k =
     (if tasks k = None \<or> i = 0 then (None, k)
      else
        (case (case cache_lookup_task i k of
                 None \<Rightarrow> None
               | Some cached \<Rightarrow> if cached < length (task_nodes k) then Some cached else None) of
           Some node \<Rightarrow> (Some node, k)
         | None \<Rightarrow>
             (case snd (list_foreach (idcmp i) (task_nodes k)) of
                None \<Rightarrow> (None, k)
              | Some node \<Rightarrow> (Some node, cache_task i node k))))"

text \<open>\<open>valid_priorities\<close> and \<open>is_valid_priority\<close>.\<close>

definition valid_priorities :: "16 word list" where
  "valid_priorities =
     [TASK_PRIO_CRIT, TASK_PRIO_REALTIME, TASK_PRIO_HIGH, TASK_PRIO_ABOVE,
      TASK_PRIO_NORMAL, TASK_PRIO_BELOW, TASK_PRIO_LOW, TASK_PRIO_IDLE]"

definition is_valid_priority :: "16 word \<Rightarrow> bool" where
  "is_valid_priority priority = (find (\<lambda>p. priority = p) valid_priorities \<noteq> None)"

text \<open>
  \<open>mo_task_spawn\<close>.  The heap is external: what the four allocations of one call
  return is an argument.  \<open>tcb_alloc\<close>, \<open>list_alloc\<close> and \<open>node_alloc\<close> say whether
  \<open>malloc(sizeof(tcb_t))\<close>, \<open>list_create\<close> and \<open>list_pushback\<close> succeed;
  \<open>stack_alloc\<close> is the address \<open>malloc(stack_size)\<close> returns.
\<close>

record heap_results =
  tcb_alloc :: bool
  stack_alloc :: nat
  list_alloc :: bool
  node_alloc :: bool

definition new_stack_size :: "16 word \<Rightarrow> 32 word" where
  "new_stack_size stack_size_req =
     ((if unat stack_size_req < MIN_TASK_STACK_SIZE then of_nat MIN_TASK_STACK_SIZE
       else ucast stack_size_req) + 0xF) AND NOT 0xF"

definition spawn_prio :: "16 word" where
  "spawn_prio = push_bit 8 (ucast (ucast (drop_bit 8 TASK_PRIO_NORMAL) :: 8 word))"

definition mo_task_spawn :: "nat \<Rightarrow> 16 word \<Rightarrow> heap_results \<Rightarrow> kcb_t \<Rightarrow> (16 word \<times> kcb_t) outcome" where
  "mo_task_spawn task_entry stack_size_req h k =
     (if task_entry = 0 then Panic ERR_TCB_ALLOC
      else if \<not> tcb_alloc h then Panic ERR_TCB_ALLOC
      else if stack_alloc h = 0 \<or> stack_alloc h mod 4 \<noteq> 0 then Panic ERR_STACK_ALLOC
      else if tasks k = None \<and> \<not> list_alloc h then Panic ERR_KCB_ALLOC
      else if \<not> node_alloc h then Panic ERR_TCB_ALLOC
      else
        let tcb = \<lparr>stack = stack_alloc h, stack_sz = unat (new_stack_size stack_size_req),
                   entry = task_entry, prio = spawn_prio, delay = 0, tcb_id = next_tid k,
                   state = TASK_STOPPED, flags = 0, rt_prio = 0,
                   lo_canary = STACK_CANARY, hi_canary = STACK_CANARY\<rparr>;
            node = length (task_nodes k);
            k1 = k\<lparr>tasks := Some (list_pushback (task_nodes k) tcb),
                   next_tid := next_tid k + 1, task_count := task_count k + 1\<rparr>;
            k2 = (if task_current k1 = None then k1\<lparr>task_current := Some node\<rparr> else k1);
            k3 = cache_task (tcb_id tcb) node k2;
            k4 = set_node node (tcb\<lparr>state := TASK_READY\<rparr>) k3
        in Return (tcb_id tcb, k4))"

definition mo_task_id :: "kcb_t \<Rightarrow> 16 word" where
  "mo_task_id k = (case task_current k of None \<Rightarrow> 0 | Some cur \<Rightarrow> tcb_id (task_nodes k ! cur))"

text \<open>\<open>mo_task_delay\<close>.  \<open>block_current\<close> is the critical section that stores the
  delay and blocks the caller.\<close>

definition block_current :: "16 word \<Rightarrow> nat \<Rightarrow> kcb_t \<Rightarrow> kcb_t" where
  "block_current ticks' cur k =
     set_node cur ((task_nodes k ! cur)\<lparr>delay := ticks', state := TASK_BLOCKED\<rparr>) k"

definition mo_task_delay :: "16 word \<Rightarrow> kcb_t \<Rightarrow> kcb_t outcome" where
  "mo_task_delay ticks' k =
     (if ticks' = 0 then Return k
      else (case task_current k of
              None \<Rightarrow> Return k
            | Some cur \<Rightarrow> mo_task_yield (block_current ticks' cur k)))"

definition mo_task_suspend :: "16 word \<Rightarrow> kcb_t \<Rightarrow> (errcode \<times> kcb_t) outcome" where
  "mo_task_suspend i k =
     (if i = 0 then Return (ERR_TASK_NOT_FOUND, k)
      else
        (case find_task_node_by_id i k of
           (None, k1) \<Rightarrow> Return (ERR_TASK_NOT_FOUND, k1)
         | (Some node, k1) \<Rightarrow>
             let task = task_nodes k1 ! node in
             if state task \<noteq> TASK_READY \<and> state task \<noteq> TASK_RUNNING \<and> state task \<noteq> TASK_BLOCKED
             then Return (ERR_TASK_CANT_SUSPEND, k1)
             else
               let k2 = set_node node (task\<lparr>state := TASK_SUSPENDED\<rparr>) k1;
                   is_current = (task_current k2 = Some node);
                   k3 = (if last_ready_hint k2 = Some node then k2\<lparr>last_ready_hint := None\<rparr> else k2)
               in if is_current
                  then (case mo_task_yield k3 of
                          Panic e \<Rightarrow> Panic e
                        | Return k4 \<Rightarrow> Return (ERR_OK, k4))
                  else Return (ERR_OK, k3)))"

definition mo_task_resume :: "16 word \<Rightarrow> kcb_t \<Rightarrow> errcode \<times> kcb_t" where
  "mo_task_resume i k =
     (if i = 0 then (ERR_TASK_NOT_FOUND, k)
      else
        (case find_task_node_by_id i k of
           (None, k1) \<Rightarrow> (ERR_TASK_NOT_FOUND, k1)
         | (Some node, k1) \<Rightarrow>
             let task = task_nodes k1 ! node in
             if state task \<noteq> TASK_SUSPENDED then (ERR_TASK_CANT_RESUME, k1)
             else (ERR_OK, set_node node (task\<lparr>state := TASK_READY\<rparr>) k1)))"

text \<open>\<open>mo_task_priority\<close>; \<open>dup_base\<close> is the word it stores.\<close>

definition dup_base :: "16 word \<Rightarrow> 16 word" where
  "dup_base priority =
     push_bit 8 (ucast (ucast (drop_bit 8 priority) :: 8 word))
       OR ucast (ucast (drop_bit 8 priority) :: 8 word)"

definition mo_task_priority :: "16 word \<Rightarrow> 16 word \<Rightarrow> kcb_t \<Rightarrow> errcode \<times> kcb_t" where
  "mo_task_priority i priority k =
     (if i = 0 \<or> \<not> is_valid_priority priority then (ERR_TASK_INVALID_PRIO, k)
      else
        (case find_task_node_by_id i k of
           (None, k1) \<Rightarrow> (ERR_TASK_NOT_FOUND, k1)
         | (Some node, k1) \<Rightarrow>
             (ERR_OK, set_node node ((task_nodes k1 ! node)\<lparr>prio := dup_base priority\<rparr>) k1)))"

section \<open>Bounded queue\<close>

text \<open>
  Modelled from the spec: \<open>lib/queue.h\<close> is not among the sources.  The spec
  describes a fixed-capacity FIFO ring holding opaque pointers.  A queue is its
  capacity and the list of its items, oldest first.  The status of \<open>queue_enqueue\<close>
  is the one its callers in the sources rely on: \<open>0\<close> on success and \<open>-1\<close> when the
  queue is full; \<open>queue_dequeue\<close> returns \<open>NULL\<close> on an empty queue.
\<close>

record 'a queue_t =
  q_capacity :: nat
  q_items :: "'a list"

definition queue_count :: "'a queue_t \<Rightarrow> nat" where
  "queue_count q = length (q_items q)"

definition queue_enqueue :: "'a queue_t \<Rightarrow> 'a \<Rightarrow> 32 word \<times> 'a queue_t" where
  "queue_enqueue q x =
     (if q_capacity q \<le> length (q_items q) then (- 1, q)
      else (0, q\<lparr>q_items := q_items q @ [x]\<rparr>))"

definition queue_dequeue :: "'a queue_t \<Rightarrow> 'a option \<times> 'a queue_t" where
  "queue_dequeue q =
     (case q_items q of [] \<Rightarrow> (None, q) | x # xs \<Rightarrow> (Some x, q\<lparr>q_items := xs\<rparr>))"

section \<open>Spinlocks\<close>

text \<open>
  \<open>spinlock_t\<close> of \<open>arch/riscv/spinlock.h\<close> is one word, \<open>0\<close> while the lock is
  free.  \<open>spin_lock\<close> stores \<open>1\<close> with an atomic test-and-set; when the word it
  replaced was not \<open>0\<close> it waits until the word reads \<open>0\<close> (\<open>spin_wait\<close>, the inner
  loop) and tries again.  \<open>spin_lock_irqsave\<close> disables interrupts before it spins and
  the kernel runs on one hart, so no other code runs while a task waits and the word
  stays as it is: waiting for a lock that is held never ends, which is the value
  \<open>None\<close>.  \<open>spin_unlock\<close> stores \<open>0\<close>.  The saved interrupt flags are not modelled.
\<close>

type_synonym spinlock_t = "32 word"

definition SPINLOCK_INITIALIZER :: spinlock_t where "SPINLOCK_INITIALIZER = 0"

partial_function (option) spin_wait :: "spinlock_t \<Rightarrow> spinlock_t option" where
  "spin_wait lock = (if lock \<noteq> 0 then spin_wait lock else Some lock)"

partial_function (option) spin_lock :: "spinlock_t \<Rightarrow> spinlock_t option" where
  "spin_lock lock =
     (if lock \<noteq> 0 then (case spin_wait 1 of None \<Rightarrow> None | Some l \<Rightarrow> spin_lock l) else Some 1)"

declare spin_wait.simps [code]
declare spin_lock.simps [code]

definition spin_unlock :: "spinlock_t \<Rightarrow> spinlock_t" where
  "spin_unlock lock = 0"

definition spin_lock_irqsave :: "spinlock_t \<Rightarrow> spinlock_t option" where
  "spin_lock_irqsave lock = spin_lock lock"

definition spin_unlock_irqrestore :: "spinlock_t \<Rightarrow> spinlock_t" where
  "spin_unlock_irqrestore lock = spin_unlock lock"

section \<open>Semaphore\<close>

text \<open>
  \<open>struct sem_t\<close>.  The wait queue holds pointers to TCBs; \<open>wait_q\<close> is \<open>None\<close> for a
  \<open>NULL\<close> queue pointer.  \<open>count\<close> is an \<open>int32_t\<close>, read with \<open>sint\<close>.  The
  constant \<open>SEM_MAX_COUNT\<close> is declared in \<open>sys/semaphore.h\<close>, which is not among the
  sources: the functions take it as their first argument.
\<close>

record sem_t =
  wait_q :: "nat queue_t option"
  count :: "32 word"
  max_waiters :: "16 word"
  sem_magic :: "32 word"

definition SEM_MAGIC :: "32 word" where "SEM_MAGIC = 0x53454D00"

definition sem_is_valid :: "sem_t \<Rightarrow> bool" where
  "sem_is_valid s = (sem_magic s = SEM_MAGIC \<and> wait_q s \<noteq> None)"

text \<open>
  \<open>_sched_block\<close> of the task module (\<open>sched_block\<close> here): the caller is put on the
  wait queue, set to \<open>TASK_BLOCKED\<close> and switched out by \<open>_yield\<close>.  The result is the
  queue and the kernel state at the switch.
\<close>

definition sched_block :: "nat queue_t option \<Rightarrow> kcb_t \<Rightarrow> (nat queue_t \<times> kcb_t) outcome" where
  "sched_block wq k =
     (case wq of
        None \<Rightarrow> Panic ERR_SEM_OPERATION
      | Some q \<Rightarrow>
          (case task_current k of
             None \<Rightarrow> Panic ERR_SEM_OPERATION
           | Some self \<Rightarrow>
               (case queue_enqueue q self of
                  (rc, q') \<Rightarrow>
                    if rc \<noteq> 0 then Panic ERR_SEM_OPERATION
                    else (case yield (set_node self ((task_nodes k ! self)\<lparr>state := TASK_BLOCKED\<rparr>) k) of
                            Panic e \<Rightarrow> Panic e
                          | Return k' \<Rightarrow> Return (q', k')))))"

text \<open>
  The module's spinlock \<open>semaphore_lock\<close> is an argument of \<open>mo_sem_wait\<close> and
  \<open>mo_sem_signal\<close> and part of what they return; a call that never gets the lock is
  \<open>None\<close>.  On its fast path \<open>mo_sem_wait\<close> takes a token and releases the lock.  On
  its slow path it calls \<open>_sched_block\<close> with the lock held, and no statement between
  taking the lock and the context switch, or after it, releases it: the state returned
  for the slow path is the one at the switch, with the lock word as \<open>spin_lock\<close> left
  it.
\<close>

definition mo_sem_wait :: "spinlock_t \<Rightarrow> sem_t \<Rightarrow> kcb_t \<Rightarrow> (spinlock_t \<times> sem_t \<times> kcb_t) outcome option" where
  "mo_sem_wait semaphore_lock s k =
     (if \<not> sem_is_valid s then Some (Panic ERR_SEM_OPERATION)
      else case spin_lock_irqsave semaphore_lock of
        None \<Rightarrow> None
      | Some lk \<Rightarrow>
          (case wait_q s of
             None \<Rightarrow> Some (Panic ERR_SEM_OPERATION)
           | Some q \<Rightarrow>
               if 0 <s count s \<and> queue_count q = 0
               then Some (Return (spin_unlock_irqrestore lk, s\<lparr>count := count s - 1\<rparr>, k))
               else if unat (max_waiters s) \<le> queue_count q
               then Some (Panic ERR_SEM_OPERATION)
               else (case sched_block (wait_q s) k of
                       Panic e \<Rightarrow> Some (Panic e)
                     | Return (q', k') \<Rightarrow> Some (Return (lk, s\<lparr>wait_q := Some q'\<rparr>, k')))))"

definition mo_sem_signal ::
    "32 word \<Rightarrow> spinlock_t \<Rightarrow> sem_t \<Rightarrow> kcb_t \<Rightarrow> (spinlock_t \<times> sem_t \<times> kcb_t) outcome option" where
  "mo_sem_signal sem_max_count semaphore_lock s k =
     (if \<not> sem_is_valid s then Some (Panic ERR_SEM_OPERATION)
      else case spin_lock_irqsave semaphore_lock of
        None \<Rightarrow> None
      | Some lk \<Rightarrow>
          (case wait_q s of
             None \<Rightarrow> Some (Panic ERR_SEM_OPERATION)
           | Some q \<Rightarrow>
               if queue_count q > 0 then
                 (case queue_dequeue q of
                    (None, q') \<Rightarrow> Some (Return (spin_unlock_irqrestore lk, s\<lparr>wait_q := Some q'\<rparr>, k))
                  | (Some awakened_task, q') \<Rightarrow>
                      if state (task_nodes k ! awakened_task) = TASK_BLOCKED
                      then (case mo_task_yield
                                   (set_node awakened_task
                                      ((task_nodes k ! awakened_task)\<lparr>state := TASK_READY\<rparr>) k) of
                              Panic e \<Rightarrow> Some (Panic e)
                            | Return k' \<Rightarrow>
                                Some (Return (spin_unlock_irqrestore lk, s\<lparr>wait_q := Some q'\<rparr>, k')))
                      else Some (Panic ERR_SEM_OPERATION))
               else Some (Return (spin_unlock_irqrestore lk,
                                  if count s <s sem_max_count then s\<lparr>count := count s + 1\<rparr> else s, k))))"

section \<open>Mutex\<close>

text \<open>
  \<open>mutex_t\<close> of \<open>sys/mutex.h\<close>, as the sources use it: the list of waiting TCBs
  (\<open>None\<close> for a \<open>NULL\<close> list pointer), the owner's task id (\<open>0\<close> when free) and
  the magic word.  The header is not among the sources, so the constant
  \<open>MUTEX_MAGIC\<close> is the first argument of every function.
\<close>

record mutex_t =
  waiters :: "nat list option"
  owner_tid :: "16 word"
  mutex_magic :: "32 word"

definition mutex_is_valid :: "32 word \<Rightarrow> mutex_t \<Rightarrow> bool" where
  "mutex_is_valid MUTEX_MAGIC m = (mutex_magic m = MUTEX_MAGIC \<and> waiters m \<noteq> None)"




definition mo_mutex_timedlock_wake :: "nat \<Rightarrow> mutex_t \<Rightarrow> kcb_t \<Rightarrow> errcode \<times> mutex_t \<times> kcb_t" where
  "mo_mutex_timedlock_wake self m k =
     (if state (task_nodes k ! self) = TASK_BLOCKED
      then (ERR_TIMEOUT, m\<lparr>waiters := map_option (remove1 self) (waiters m)\<rparr>,
            set_node self ((task_nodes k ! self)\<lparr>state := TASK_READY\<rparr>) k)
      else (ERR_OK, m, k))"

text \<open>
  \<open>mo_mutex_lock\<close> and \<open>mo_mutex_unlock\<close>, with the module's spinlock \<open>mutex_lock\<close>
  as an argument and as part of the result; a call that never gets the lock is \<open>None\<close>.
  On its slow path \<open>mo_mutex_lock\<close> calls \<open>mutex_block_atomic\<close> with the lock held:
  the caller is appended to the waiter list, set to \<open>TASK_BLOCKED\<close> and switched out by
  \<open>_yield\<close>, and no statement before the switch or after it releases the lock.  The
  state returned for the slow path is the one at the switch; \<open>ERR_OK\<close> is the status
  the call hands back once the task runs again.  \<open>node_ok\<close> says whether
  \<open>list_pushback\<close> gets its node.
\<close>

definition mutex_block_atomic :: "bool \<Rightarrow> nat list option \<Rightarrow> kcb_t \<Rightarrow> (nat list \<times> kcb_t) outcome" where
  "mutex_block_atomic node_ok ws k =
     (case ws of
        None \<Rightarrow> Panic ERR_SEM_OPERATION
      | Some l \<Rightarrow>
          (case task_current k of
             None \<Rightarrow> Panic ERR_SEM_OPERATION
           | Some self \<Rightarrow>
               if \<not> node_ok then Panic ERR_SEM_OPERATION
               else (case yield (set_node self ((task_nodes k ! self)\<lparr>state := TASK_BLOCKED\<rparr>) k) of
                       Panic e \<Rightarrow> Panic e
                     | Return k' \<Rightarrow> Return (list_pushback l self, k'))))"

definition mo_mutex_lock ::
    "32 word \<Rightarrow> bool \<Rightarrow> spinlock_t \<Rightarrow> mutex_t \<Rightarrow> kcb_t
       \<Rightarrow> (errcode \<times> spinlock_t \<times> mutex_t \<times> kcb_t) outcome option" where
  "mo_mutex_lock MUTEX_MAGIC node_ok mutex_lock m k =
     (if \<not> mutex_is_valid MUTEX_MAGIC m then Some (Panic ERR_SEM_OPERATION)
      else
        let self_tid = mo_task_id k in
        case spin_lock_irqsave mutex_lock of
          None \<Rightarrow> None
        | Some lk \<Rightarrow>
            if owner_tid m = self_tid
            then Some (Return (ERR_TASK_BUSY, spin_unlock_irqrestore lk, m, k))
            else if owner_tid m = 0
            then Some (Return (ERR_OK, spin_unlock_irqrestore lk, m\<lparr>owner_tid := self_tid\<rparr>, k))
            else (case mutex_block_atomic node_ok (waiters m) k of
                    Panic e \<Rightarrow> Some (Panic e)
                  | Return (l', k') \<Rightarrow> Some (Return (ERR_OK, lk, m\<lparr>waiters := Some l'\<rparr>, k'))))"

definition mo_mutex_unlock ::
    "32 word \<Rightarrow> spinlock_t \<Rightarrow> mutex_t \<Rightarrow> kcb_t
       \<Rightarrow> (errcode \<times> spinlock_t \<times> mutex_t \<times> kcb_t) outcome option" where
  "mo_mutex_unlock MUTEX_MAGIC mutex_lock m k =
     (if \<not> mutex_is_valid MUTEX_MAGIC m then Some (Return (ERR_FAIL, mutex_lock, m, k))
      else
        let self_tid = mo_task_id k in
        case spin_lock_irqsave mutex_lock of
          None \<Rightarrow> None
        | Some lk \<Rightarrow>
            if owner_tid m \<noteq> self_tid
            then Some (Return (ERR_NOT_OWNER, spin_unlock_irqrestore lk, m, k))
            else
              (case waiters m of
                 None \<Rightarrow> Some (Return (ERR_FAIL, spin_unlock_irqrestore lk, m, k))
               | Some ws \<Rightarrow>
                   if list_is_empty ws
                   then Some (Return (ERR_OK, spin_unlock_irqrestore lk, m\<lparr>owner_tid := 0\<rparr>, k))
                   else
                     (case list_pop ws of
                        (None, ws') \<Rightarrow>
                          Some (Return (ERR_OK, spin_unlock_irqrestore lk,
                                        m\<lparr>waiters := Some ws', owner_tid := 0\<rparr>, k))
                      | (Some next_owner, ws') \<Rightarrow>
                          if state (task_nodes k ! next_owner) = TASK_BLOCKED
                          then Some (Return (ERR_OK, spin_unlock_irqrestore lk,
                                 m\<lparr>waiters := Some ws', owner_tid := tcb_id (task_nodes k ! next_owner)\<rparr>,
                                 set_node next_owner ((task_nodes k ! next_owner)\<lparr>state := TASK_READY\<rparr>) k))
                          else Some (Panic ERR_SEM_OPERATION))))"

section \<open>Message queue\<close>

text \<open>\<open>mq_t\<close> wraps a bounded queue of message pointers; \<open>mo_mq_enqueue\<close> returns the
  status of \<open>queue_enqueue\<close> as it is.\<close>

record mq_t =
  q :: "nat queue_t"

definition mo_mq_enqueue :: "mq_t \<Rightarrow> nat \<Rightarrow> 32 word \<times> mq_t" where
  "mo_mq_enqueue mq msg = (case queue_enqueue (q mq) msg of (rc, q') \<Rightarrow> (rc, mq\<lparr>q := q'\<rparr>))"

section \<open>Pipe\<close>

text \<open>
  Modelled from the spec: \<open>ispowerof2\<close> and \<open>nextpowerof2\<close> of \<open>private/utils.h\<close>,
  which is not among the sources.  The spec says that the capacity of a pipe is the
  requested size rounded up to a power of two: \<open>nextpowerof2 x\<close> is the least power of
  two that is at least \<open>x\<close>, found by doubling from \<open>1\<close>, and \<open>ispowerof2 x\<close> says that
  \<open>x\<close> is one.
\<close>

function np2_loop :: "nat \<Rightarrow> nat \<Rightarrow> nat" where
  "np2_loop p x = (if x \<le> p \<or> p = 0 then p else np2_loop (2 * p) x)"
  by pat_completeness auto
termination
  by (relation "measure (\<lambda>(p, x). x - p)") auto

declare np2_loop.simps [simp del]

definition nextpowerof2 :: "nat \<Rightarrow> nat" where
  "nextpowerof2 x = np2_loop 1 x"


text \<open>
  Modelled from the spec: \<open>pipe_t\<close> of \<open>sys/pipe.h\<close>, which is not among the sources.
  The spec gives the fields \<open>buf\<close>, \<open>mask\<close> (capacity minus one), \<open>head\<close>, \<open>tail\<close> and
  \<open>used\<close>; the field \<open>mask\<close> is \<open>pipe_mask\<close> here.  The four indices are taken to be
  16 bits wide, the width of the \<open>size\<close> argument of \<open>mo_pipe_create\<close> and of the byte
  counters of the read and write functions.  In an expression such as
  \<open>p->mask + 1\<close> C promotes them to \<open>int\<close>, which is \<open>unat\<close> here.  \<open>buf\<close> is the
  memory starting at the buffer's address.
\<close>

record pipe_t =
  buf :: "nat \<Rightarrow> 8 word"
  pipe_mask :: "16 word"
  head :: "16 word"
  tail :: "16 word"
  used :: "16 word"

definition pipe_is_empty :: "pipe_t \<Rightarrow> bool" where
  "pipe_is_empty p = (used p = 0)"

definition pipe_is_full :: "pipe_t \<Rightarrow> bool" where
  "pipe_is_full p = (unat (used p) = unat (pipe_mask p) + 1)"

definition pipe_get_byte :: "pipe_t \<Rightarrow> 8 word \<times> pipe_t" where
  "pipe_get_byte p =
     (buf p (unat (head p)), p\<lparr>head := (head p + 1) AND pipe_mask p, used := used p - 1\<rparr>)"

definition pipe_put_byte :: "pipe_t \<Rightarrow> 8 word \<Rightarrow> pipe_t" where
  "pipe_put_byte p c =
     p\<lparr>buf := (buf p)(unat (tail p) := c), tail := (tail p + 1) AND pipe_mask p,
       used := used p + 1\<rparr>"



definition mo_pipe_flush :: "pipe_t \<Rightarrow> pipe_t" where
  "mo_pipe_flush p = p\<lparr>head := 0, tail := 0, used := 0\<rparr>"

text \<open>
  The blocking calls.  \<open>pipe_wait_until_readable\<close> and \<open>pipe_wait_until_writable\<close>
  poll the pipe and wait for the next tick in between.  Calls are executed one after
  another here, so nothing changes the pipe between two polls: a wait that does not
  find its condition never returns, which is the value \<open>None\<close>.
\<close>

partial_function (option) pipe_wait_until_readable :: "pipe_t \<Rightarrow> unit option" where
  "pipe_wait_until_readable p =
     (if \<not> pipe_is_empty p then Some () else pipe_wait_until_readable p)"

partial_function (option) pipe_wait_until_writable :: "pipe_t \<Rightarrow> unit option" where
  "pipe_wait_until_writable p =
     (if \<not> pipe_is_full p then Some () else pipe_wait_until_writable p)"

text \<open>
  The loops of the four transfer functions; the first argument counts the bytes still
  to transfer (\<open>len - i\<close>).  A read returns the bytes stored to \<open>dst\<close>, in order; a
  write takes the source memory and the index \<open>i\<close> and returns the final \<open>i\<close>.
\<close>

fun pipe_read_loop :: "nat \<Rightarrow> pipe_t \<Rightarrow> 8 word list \<Rightarrow> (8 word list \<times> pipe_t) option" where
  "pipe_read_loop 0 p dst = Some (dst, p)"
| "pipe_read_loop (Suc n) p dst =
     (case pipe_wait_until_readable p of
        None \<Rightarrow> None
      | Some u \<Rightarrow> (case pipe_get_byte p of (c, p') \<Rightarrow> pipe_read_loop n p' (dst @ [c])))"

fun pipe_write_loop :: "(nat \<Rightarrow> 8 word) \<Rightarrow> nat \<Rightarrow> nat \<Rightarrow> pipe_t \<Rightarrow> (nat \<times> pipe_t) option" where
  "pipe_write_loop src i 0 p = Some (i, p)"
| "pipe_write_loop src i (Suc n) p =
     (case pipe_wait_until_writable p of
        None \<Rightarrow> None
      | Some u \<Rightarrow> pipe_write_loop src (Suc i) n (pipe_put_byte p (src i)))"

fun pipe_nbread_loop :: "nat \<Rightarrow> pipe_t \<Rightarrow> 8 word list \<Rightarrow> 8 word list \<times> pipe_t" where
  "pipe_nbread_loop 0 p dst = (dst, p)"
| "pipe_nbread_loop (Suc n) p dst =
     (if pipe_is_empty p then (dst, p)
      else (case pipe_get_byte p of (c, p') \<Rightarrow> pipe_nbread_loop n p' (dst @ [c])))"

fun pipe_nbwrite_loop :: "(nat \<Rightarrow> 8 word) \<Rightarrow> nat \<Rightarrow> nat \<Rightarrow> pipe_t \<Rightarrow> nat \<times> pipe_t" where
  "pipe_nbwrite_loop src i 0 p = (i, p)"
| "pipe_nbwrite_loop src i (Suc n) p =
     (if pipe_is_full p then (i, p)
      else pipe_nbwrite_loop src (Suc i) n (pipe_put_byte p (src i)))"

text \<open>
  The four calls.  The result is \<open>Inl ERR_FAIL\<close> for \<open>len = 0\<close>, otherwise the bytes
  read or the number of bytes written; the blocking calls are \<open>None\<close> when they never
  return.
\<close>

definition mo_pipe_read :: "pipe_t \<Rightarrow> 16 word \<Rightarrow> ((errcode + 8 word list) \<times> pipe_t) option" where
  "mo_pipe_read p len =
     (if len = 0 then Some (Inl ERR_FAIL, p)
      else map_option (\<lambda>(dst, p'). (Inr dst, p')) (pipe_read_loop (unat len) p []))"

definition mo_pipe_write :: "pipe_t \<Rightarrow> (nat \<Rightarrow> 8 word) \<Rightarrow> 16 word \<Rightarrow> ((errcode + nat) \<times> pipe_t) option" where
  "mo_pipe_write p src len =
     (if len = 0 then Some (Inl ERR_FAIL, p)
      else map_option (\<lambda>(i, p'). (Inr i, p')) (pipe_write_loop src 0 (unat len) p))"

definition mo_pipe_nbread :: "pipe_t \<Rightarrow> 16 word \<Rightarrow> (errcode + 8 word list) \<times> pipe_t" where
  "mo_pipe_nbread p len =
     (if len = 0 then (Inl ERR_FAIL, p)
      else (case pipe_nbread_loop (unat len) p [] of (dst, p') \<Rightarrow> (Inr dst, p')))"

definition mo_pipe_nbwrite :: "pipe_t \<Rightarrow> (nat \<Rightarrow> 8 word) \<Rightarrow> 16 word \<Rightarrow> (errcode + nat) \<times> pipe_t" where
  "mo_pipe_nbwrite p src len =
     (if len = 0 then (Inl ERR_FAIL, p)
      else (case pipe_nbwrite_loop src 0 (unat len) p of (i, p') \<Rightarrow> (Inr i, p')))"

text \<open>A sequence of pipe operations, run call after call; \<open>None\<close> when a call of the
  sequence never returns.\<close>

datatype pipe_op =
    Read "16 word"
  | Write "nat \<Rightarrow> 8 word" "16 word"
  | NbRead "16 word"
  | NbWrite "nat \<Rightarrow> 8 word" "16 word"
  | Flush

fun pipe_apply :: "pipe_t \<Rightarrow> pipe_op \<Rightarrow> pipe_t option" where
  "pipe_apply p (Read len) = map_option snd (mo_pipe_read p len)"
| "pipe_apply p (Write src len) = map_option snd (mo_pipe_write p src len)"
| "pipe_apply p (NbRead len) = Some (snd (mo_pipe_nbread p len))"
| "pipe_apply p (NbWrite src len) = Some (snd (mo_pipe_nbwrite p src len))"
| "pipe_apply p Flush = Some (mo_pipe_flush p)"

fun pipe_run :: "pipe_t \<Rightarrow> pipe_op list \<Rightarrow> pipe_t option" where
  "pipe_run p [] = Some p"
| "pipe_run p (x # xs) = (case pipe_apply p x of None \<Rightarrow> None | Some p' \<Rightarrow> pipe_run p' xs)"



section \<open>Software timers\<close>

text \<open>
  Modelled from the spec: \<open>timer_t\<close> and the timer modes of \<open>sys/timer.h\<close>, which is
  not among the sources.  The spec gives the fields \<open>id\<close> (\<open>timer_id\<close> here),
  \<open>callback\<close>, \<open>arg\<close>, \<open>period_ms\<close>, \<open>deadline_ticks\<close> and \<open>mode\<close>, and the three
  modes.  The macro \<open>MS_TO_TICKS\<close> of the same header is an argument of the functions
  that use it.
\<close>

datatype timer_mode = TIMER_DISABLED | TIMER_ONESHOT | TIMER_AUTORELOAD

record timer_t =
  timer_id :: "16 word"
  callback :: nat
  arg :: nat
  period_ms :: "32 word"
  deadline_ticks :: "32 word"
  mode :: timer_mode

text \<open>
  The statics of the timer module and the timers themselves: \<open>timers\<close> maps the
  address of a timer to its contents.  The active list \<open>timer_list\<close> of the kernel
  control block holds addresses of timers.  A callback is opaque user code; calling
  it is recorded in \<open>fired\<close> (the function pointer and its argument, in call order),
  and it is taken not to touch the timers.  \<open>malloc_ok\<close> says whether \<open>malloc\<close> has a
  list node left when the pool is exhausted.
\<close>

record timer_statics =
  timer_initialized :: bool
  pool_free_mask :: "16 word"
  timers :: "nat \<Rightarrow> timer_t"
  fired :: "(nat \<times> nat) list"

definition TIMER_NODE_POOL_SIZE :: nat where "TIMER_NODE_POOL_SIZE = 16"

text \<open>\<open>get_timer_node\<close>: whether a node is obtained, and the pool mask afterwards.\<close>

definition get_timer_node :: "bool \<Rightarrow> 16 word \<Rightarrow> bool \<times> 16 word" where
  "get_timer_node malloc_ok m =
     (case find (\<lambda>i. m AND push_bit i 1 \<noteq> 0) [0..<TIMER_NODE_POOL_SIZE] of
        Some i \<Rightarrow> (True, m AND NOT (push_bit i 1))
      | None \<Rightarrow> (malloc_ok, m))"

text \<open>The insertion walk of \<open>timer_sorted_insert\<close>: before the first timer with a
  later deadline.\<close>

fun timer_insert_pos :: "(nat \<Rightarrow> timer_t) \<Rightarrow> nat \<Rightarrow> nat list \<Rightarrow> nat list" where
  "timer_insert_pos ts t [] = [t]"
| "timer_insert_pos ts t (c # cs) =
     (if deadline_ticks (ts t) < deadline_ticks (ts c) then t # c # cs
      else c # timer_insert_pos ts t cs)"

definition timer_sorted_insert ::
    "bool \<Rightarrow> nat \<Rightarrow> timer_statics \<times> nat list \<Rightarrow> errcode \<times> timer_statics \<times> nat list" where
  "timer_sorted_insert malloc_ok t s =
     (case s of (st, l) \<Rightarrow>
        (case get_timer_node malloc_ok (pool_free_mask st) of
           (False, m) \<Rightarrow> (ERR_FAIL, st\<lparr>pool_free_mask := m\<rparr>, l)
         | (True, m) \<Rightarrow> (ERR_OK, st\<lparr>pool_free_mask := m\<rparr>, timer_insert_pos (timers st) t l)))"

text \<open>The first loop of \<open>_timer_tick_handler\<close>: pop expired timers off the head of
  the active list, at most 8 of them.  The result is the list that is left and the
  timers collected, in order.\<close>

fun timer_collect :: "(nat \<Rightarrow> timer_t) \<Rightarrow> 32 word \<Rightarrow> nat list \<Rightarrow> nat list \<Rightarrow> nat list \<times> nat list" where
  "timer_collect ts now [] expired = ([], expired)"
| "timer_collect ts now (t # l) expired =
     (if length expired < 8
      then (if deadline_ticks (ts t) \<le> now then timer_collect ts now l (expired @ [t])
            else (t # l, expired))
      else (t # l, expired))"

text \<open>The body of the second loop, for one collected timer, and the loop.\<close>

definition timer_fire ::
    "(32 word \<Rightarrow> 32 word) \<Rightarrow> bool \<Rightarrow> 32 word \<Rightarrow> nat \<Rightarrow> timer_statics \<times> nat list
       \<Rightarrow> timer_statics \<times> nat list" where
  "timer_fire ms_to_ticks malloc_ok now t s =
     (case s of (st, l) \<Rightarrow>
        let st1 = (if callback (timers st t) \<noteq> 0
                   then st\<lparr>fired := fired st @ [(callback (timers st t), arg (timers st t))]\<rparr>
                   else st)
        in if mode (timers st1 t) = TIMER_AUTORELOAD
           then
             (let st2 = st1\<lparr>timers := (timers st1)
                          (t := (timers st1 t)\<lparr>deadline_ticks := now + ms_to_ticks (period_ms (timers st1 t))\<rparr>)\<rparr>
              in case timer_sorted_insert malloc_ok t (st2, l) of (rc, st3, l') \<Rightarrow> (st3, l'))
           else (st1\<lparr>timers := (timers st1)(t := (timers st1 t)\<lparr>mode := TIMER_DISABLED\<rparr>)\<rparr>, l))"

fun timer_process ::
    "(32 word \<Rightarrow> 32 word) \<Rightarrow> bool \<Rightarrow> 32 word \<Rightarrow> nat list \<Rightarrow> timer_statics \<times> nat list
       \<Rightarrow> timer_statics \<times> nat list" where
  "timer_process ms_to_ticks malloc_ok now [] s = s"
| "timer_process ms_to_ticks malloc_ok now (t # expired) s =
     timer_process ms_to_ticks malloc_ok now expired (timer_fire ms_to_ticks malloc_ok now t s)"

text \<open>\<open>_timer_tick_handler\<close> (an Isabelle name cannot start with an underscore).\<close>

definition timer_tick_handler ::
    "(32 word \<Rightarrow> 32 word) \<Rightarrow> bool \<Rightarrow> timer_statics \<Rightarrow> kcb_t \<Rightarrow> timer_statics \<times> kcb_t" where
  "timer_tick_handler ms_to_ticks malloc_ok st k =
     (case timer_list k of
        None \<Rightarrow> (st, k)
      | Some l \<Rightarrow>
          if \<not> timer_initialized st \<or> list_is_empty l then (st, k)
          else
            (case timer_collect (timers st) (ticks k) l [] of
               (l1, expired) \<Rightarrow>
                 (case timer_process ms_to_ticks malloc_ok (ticks k) expired (st, l1) of
                    (st', l') \<Rightarrow> (st', k\<lparr>timer_list := Some l'\<rparr>))))"

text \<open>What the spec says the handler collects: the expired timers at the head of
  the active list, at most 8 of them.\<close>

definition timer_expired_head :: "(nat \<Rightarrow> timer_t) \<Rightarrow> 32 word \<Rightarrow> nat list \<Rightarrow> nat list" where
  "timer_expired_head ts now l = take 8 (takeWhile (\<lambda>t. deadline_ticks (ts t) \<le> now) l)"

definition timer_sorted :: "(nat \<Rightarrow> timer_t) \<Rightarrow> nat list \<Rightarrow> bool" where
  "timer_sorted ts l = sorted (map (\<lambda>t. deadline_ticks (ts t)) l)"

text \<open>What the spec says happens to a collected timer: an auto-reload timer gets the
  deadline \<open>now + MS_TO_TICKS(period_ms)\<close>, any other timer is marked disabled.\<close>

definition timer_after :: "(32 word \<Rightarrow> 32 word) \<Rightarrow> 32 word \<Rightarrow> timer_t \<Rightarrow> timer_t" where
  "timer_after ms_to_ticks now tm =
     (if mode tm = TIMER_AUTORELOAD
      then tm\<lparr>deadline_ticks := now + ms_to_ticks (period_ms tm)\<rparr>
      else tm\<lparr>mode := TIMER_DISABLED\<rparr>)"

definition timer_calls :: "(nat \<Rightarrow> timer_t) \<Rightarrow> nat list \<Rightarrow> (nat \<times> nat) list" where
  "timer_calls ts expired =
     map (\<lambda>t. (callback (ts t), arg (ts t))) (filter (\<lambda>t. callback (ts t) \<noteq> 0) expired)"

section \<open>Example states\<close>

text \<open>Small kernels, synchronisation objects, a pipe and timers on which the theorems of
  the following sections are instantiated.\<close>

definition example_tcb :: "16 word \<Rightarrow> 16 word \<Rightarrow> task_states \<Rightarrow> 16 word \<Rightarrow> tcb_t" where
  "example_tcb i p s d = \<lparr>stack = 4096, stack_sz = 256, entry = 64, prio = p, delay = d, tcb_id = i,
     state = s, flags = 0, rt_prio = 0, lo_canary = STACK_CANARY, hi_canary = STACK_CANARY\<rparr>"

definition example_kcb :: "tcb_t list \<Rightarrow> bool \<Rightarrow> kcb_t" where
  "example_kcb ts pre = kernel_state\<lparr>tasks := Some ts, task_current := Some 0,
     next_tid := of_nat (length ts) + 1, task_count := of_nat (length ts), preemptive := pre\<rparr>"

definition kcb_three_idle :: kcb_t where
  "kcb_three_idle = example_kcb [example_tcb 1 TASK_PRIO_IDLE TASK_RUNNING 0,
                                example_tcb 2 TASK_PRIO_IDLE TASK_READY 0,
                                example_tcb 3 TASK_PRIO_IDLE TASK_READY 0] True"

definition kcb_two_ready :: kcb_t where
  "kcb_two_ready = example_kcb [example_tcb 1 TASK_PRIO_NORMAL TASK_RUNNING 0,
                               example_tcb 2 TASK_PRIO_CRIT TASK_READY 0] True"

definition example_heap :: heap_results where
  "example_heap = \<lparr>tcb_alloc = True, stack_alloc = 8192, list_alloc = True, node_alloc = True\<rparr>"

definition kcb_after_spawn :: kcb_t where
  "kcb_after_spawn =
     \<lparr>tasks = Some [\<lparr>stack = 8192, stack_sz = 512, entry = 64, prio = 0x1F00, delay = 0,
                      tcb_id = 1, state = TASK_READY, flags = 0, rt_prio = 0,
                      lo_canary = STACK_CANARY, hi_canary = STACK_CANARY\<rparr>],
      task_current = Some 0, next_tid = 2, task_count = 1, preemptive = True,
      last_ready_hint = None, timer_list = None, ticks = 0, stack_check_counter = 0,
      task_cache = [(1, Some 0), (0, None), (0, None), (0, None)], cache_index = 1\<rparr>"

definition kcb_sleeper :: kcb_t where
  "kcb_sleeper = example_kcb [example_tcb 1 TASK_PRIO_NORMAL TASK_RUNNING 0,
                             example_tcb 2 TASK_PRIO_CRIT TASK_BLOCKED 5] False"

definition suspend_resume_yield :: "16 word \<Rightarrow> kcb_t \<Rightarrow> kcb_t outcome" where
  "suspend_resume_yield i k =
     (case mo_task_suspend i k of
        Panic e \<Rightarrow> Panic e
      | Return (e1, k1) \<Rightarrow> mo_task_yield (snd (mo_task_resume i k1)))"

definition kcb_sleeper_suspended :: kcb_t where
  "kcb_sleeper_suspended =
     set_node 1 (example_tcb 2 TASK_PRIO_CRIT TASK_SUSPENDED 5) (cache_task 2 1 kcb_sleeper)"

definition kcb_sleeper_resumed :: kcb_t where
  "kcb_sleeper_resumed =
     set_node 1 (example_tcb 2 TASK_PRIO_CRIT TASK_READY 5) (cache_task 2 1 kcb_sleeper)"

definition kcb_sleeper_running :: kcb_t where
  "kcb_sleeper_running =
     (example_kcb [example_tcb 1 TASK_PRIO_NORMAL TASK_READY 0,
                   example_tcb 2 TASK_PRIO_CRIT TASK_RUNNING 5] False)
       \<lparr>task_current := Some 1, last_ready_hint := Some 1, stack_check_counter := 1,
         task_cache := [(2, Some 1), (0, None), (0, None), (0, None)], cache_index := 1\<rparr>"

definition kcb_waiter :: kcb_t where
  "kcb_waiter = example_kcb [example_tcb 1 TASK_PRIO_NORMAL TASK_RUNNING 0,
                            example_tcb 2 TASK_PRIO_CRIT TASK_BLOCKED 0] True"

definition kcb_two_crit :: kcb_t where
  "kcb_two_crit = example_kcb [example_tcb 1 TASK_PRIO_CRIT TASK_RUNNING 0,
                              example_tcb 2 TASK_PRIO_CRIT TASK_READY 0] True"

definition kcb_first_blocked :: kcb_t where
  "kcb_first_blocked =
     (example_kcb [example_tcb 1 TASK_PRIO_CRIT TASK_BLOCKED 0,
                   example_tcb 2 TASK_PRIO_CRIT TASK_RUNNING 0] True)
       \<lparr>task_current := Some 1, last_ready_hint := Some 1, stack_check_counter := 1\<rparr>"

definition kcb_second_runs :: kcb_t where
  "kcb_second_runs =
     (example_kcb [example_tcb 1 TASK_PRIO_CRIT TASK_READY 0,
                   example_tcb 2 TASK_PRIO_CRIT TASK_RUNNING 0] True)
       \<lparr>task_current := Some 1, last_ready_hint := Some 1, stack_check_counter := 1\<rparr>"

definition kcb_second_blocked :: kcb_t where
  "kcb_second_blocked =
     (example_kcb [example_tcb 1 TASK_PRIO_CRIT TASK_RUNNING 0,
                   example_tcb 2 TASK_PRIO_CRIT TASK_BLOCKED 0] True)
       \<lparr>task_current := Some 0, last_ready_hint := Some 0, stack_check_counter := 2\<rparr>"

definition sem_example :: "nat list \<Rightarrow> 32 word \<Rightarrow> sem_t" where
  "sem_example ws c = \<lparr>wait_q = Some \<lparr>q_capacity = 4, q_items = ws\<rparr>, count = c,
     max_waiters = 4, sem_magic = SEM_MAGIC\<rparr>"

definition mutex_example :: "nat list \<Rightarrow> 16 word \<Rightarrow> mutex_t" where
  "mutex_example ws owner = \<lparr>waiters = Some ws, owner_tid = owner, mutex_magic = 0x4D555458\<rparr>"

definition example_src :: "nat \<Rightarrow> 8 word" where
  "example_src i = of_nat i + 65"

definition example_pipe :: pipe_t where
  "example_pipe = \<lparr>buf = (\<lambda>i. 0), pipe_mask = 7, head = 0, tail = 0, used = 0\<rparr>"

definition example_pipe_ops :: "pipe_op list" where
  "example_pipe_ops = [NbWrite example_src 10, Read 3, Write example_src 3, NbRead 2]"

definition pipe_indices :: "pipe_t \<Rightarrow> 16 word \<times> 16 word \<times> 16 word \<times> 16 word" where
  "pipe_indices p = (pipe_mask p, head p, tail p, used p)"

definition example_timer :: "nat \<Rightarrow> 32 word \<Rightarrow> 32 word \<Rightarrow> timer_mode \<Rightarrow> timer_t" where
  "example_timer cb period deadline m =
     \<lparr>timer_id = 0x6000, callback = cb, arg = cb + 1, period_ms = period,
      deadline_ticks = deadline, mode = m\<rparr>"

definition example_timers :: "nat \<Rightarrow> timer_t" where
  "example_timers a =
     (if a = 11 then example_timer 100 50 10 TIMER_AUTORELOAD
      else if a = 12 then example_timer 200 20 12 TIMER_ONESHOT
      else example_timer 300 50 30 TIMER_AUTORELOAD)"

definition example_timer_statics :: timer_statics where
  "example_timer_statics =
     \<lparr>timer_initialized = True, pool_free_mask = 0xFFF8, timers = example_timers, fired = []\<rparr>"

definition kcb_timers :: kcb_t where
  "kcb_timers = kernel_state\<lparr>timer_list := Some [11, 12, 13], ticks := 15\<rparr>"

definition example_ms_to_ticks :: "32 word \<Rightarrow> 32 word" where
  "example_ms_to_ticks ms = ms div 10"

section \<open>Properties of the scheduler\<close>

lemma task_nodes_set_node [simp]: "task_nodes (set_node n t k) = (task_nodes k)[n := t]"
  by (cases "tasks k") (simp_all add: task_nodes_def set_node_def)

lemma set_node_fields [simp]:
  "task_current (set_node n t k) = task_current k"
  "last_ready_hint (set_node n t k) = last_ready_hint k"
  "stack_check_counter (set_node n t k) = stack_check_counter k"
  "preemptive (set_node n t k) = preemptive k"
  "task_cache (set_node n t k) = task_cache k"
  "cache_index (set_node n t k) = cache_index k"
  "(tasks (set_node n t k) = None) = (tasks k = None)"
  by (simp_all add: set_node_def)

lemma task_nodes_hint_upd [simp]: "task_nodes (k\<lparr>last_ready_hint := h\<rparr>) = task_nodes k"
  by (simp add: task_nodes_def)

lemma task_nodes_current_upd [simp]: "task_nodes (k\<lparr>task_current := h\<rparr>) = task_nodes k"
  by (simp add: task_nodes_def)

lemma map_update_same [simp]: "(map f xs)[n := f (xs ! n)] = map f xs"
  by (cases "n < length xs") (simp_all add: list_eq_iff_nth_eq nth_list_update)

lemma list_cnext_Some: "list_cnext (tasks k) node = Some n \<Longrightarrow> n < length (task_nodes k)"
  by (auto simp: list_cnext_def task_nodes_def split: option.splits if_splits intro!: mod_less_divisor)


lemma sched_loop_stop: "\<not> itcnt < SCHED_IMAX \<Longrightarrow>
   sched_loop itcnt node k vis = (None, k\<lparr>last_ready_hint := None\<rparr>, vis)"
  by (subst sched_loop.simps) simp

lemma sched_loop_break: "list_cnext (tasks k) node = None \<Longrightarrow>
   sched_loop itcnt node k vis = (None, k\<lparr>last_ready_hint := None\<rparr>, vis)"
  by (subst sched_loop.simps) simp

lemma sched_loop_skip:
  "itcnt < SCHED_IMAX \<Longrightarrow> list_cnext (tasks k) node = Some n \<Longrightarrow>
   state (task_nodes k ! n) \<noteq> TASK_READY \<or> rt_prio (task_nodes k ! n) \<noteq> 0 \<Longrightarrow>
   sched_loop itcnt node k vis = sched_loop (Suc itcnt) n k (vis @ [n])"
  by (subst sched_loop.simps) simp

lemma sched_loop_select:
  "itcnt < SCHED_IMAX \<Longrightarrow> list_cnext (tasks k) node = Some n \<Longrightarrow>
   \<not> (state (task_nodes k ! n) \<noteq> TASK_READY \<or> rt_prio (task_nodes k ! n) \<noteq> 0) \<Longrightarrow>
   (if prio_counter (prio (task_nodes k ! n)) \<noteq> 0
    then prio_counter (prio (task_nodes k ! n)) - 1
    else prio_counter (prio (task_nodes k ! n))) = 0 \<Longrightarrow>
   sched_loop itcnt node k vis =
     (Some n,
      (set_node n ((task_nodes k ! n)
          \<lparr>prio := prio_reload (prio_set_counter (prio (task_nodes k ! n)) 0)\<rparr>) k)
        \<lparr>last_ready_hint := Some n\<rparr>,
      vis @ [n])"
  by (subst sched_loop.simps) simp

lemma sched_loop_dec:
  "itcnt < SCHED_IMAX \<Longrightarrow> list_cnext (tasks k) node = Some n \<Longrightarrow>
   \<not> (state (task_nodes k ! n) \<noteq> TASK_READY \<or> rt_prio (task_nodes k ! n) \<noteq> 0) \<Longrightarrow>
   (if prio_counter (prio (task_nodes k ! n)) \<noteq> 0
    then prio_counter (prio (task_nodes k ! n)) - 1
    else prio_counter (prio (task_nodes k ! n))) \<noteq> 0 \<Longrightarrow>
   sched_loop itcnt node k vis =
     sched_loop (Suc itcnt) n
       (set_node n ((task_nodes k ! n)
          \<lparr>prio := prio_set_counter (prio (task_nodes k ! n))
                     (prio_counter (prio (task_nodes k ! n)) - 1)\<rparr>) k)
       (vis @ [n])"
  by (subst sched_loop.simps) simp

lemma sched_loop_frame:
  "sched_loop itcnt node k vis = (r, k', vis') \<Longrightarrow>
     map state (task_nodes k') = map state (task_nodes k)
     \<and> map delay (task_nodes k') = map delay (task_nodes k)
     \<and> stack_check_counter k' = stack_check_counter k
     \<and> task_current k' = task_current k"
proof (induction itcnt node k vis arbitrary: r k' vis' rule: sched_loop.induct)
  case (1 itcnt node k vis)
  show ?case
  proof (cases "itcnt < SCHED_IMAX")
    case False
    with "1.prems" show ?thesis by (auto simp: sched_loop_stop)
  next
    case lt: True
    show ?thesis
    proof (cases "list_cnext (tasks k) node")
      case None
      with "1.prems" show ?thesis by (auto simp: sched_loop_break)
    next
      case (Some n)
      let ?t = "task_nodes k ! n"
      let ?c = "if prio_counter (prio ?t) \<noteq> 0 then prio_counter (prio ?t) - 1 else prio_counter (prio ?t)"
      consider (skip) "state ?t \<noteq> TASK_READY \<or> rt_prio ?t \<noteq> 0"
        | (sel) "\<not> (state ?t \<noteq> TASK_READY \<or> rt_prio ?t \<noteq> 0)" "?c = 0"
        | (dec) "\<not> (state ?t \<noteq> TASK_READY \<or> rt_prio ?t \<noteq> 0)" "?c \<noteq> 0"
        by blast
      then show ?thesis
      proof cases
        case skip
        from "1.prems" have "sched_loop (Suc itcnt) n k (vis @ [n]) = (r, k', vis')"
          by (simp add: sched_loop_skip[OF lt Some skip])
        from "1.IH"(1)[OF lt Some skip this] show ?thesis .
      next
        case sel
        from "1.prems" show ?thesis
          unfolding sched_loop_select[OF lt Some sel] by (auto simp: map_update)
      next
        case dec
        from "1.prems" have "sched_loop (Suc itcnt) n
           (set_node n (?t\<lparr>prio := prio_set_counter (prio ?t) (prio_counter (prio ?t) - 1)\<rparr>) k)
           (vis @ [n]) = (r, k', vis')"
          by (simp add: sched_loop_dec[OF lt Some dec])
        from "1.IH"(2)[OF lt Some dec this] show ?thesis by (simp add: map_update)
      qed
    qed
  qed
qed

lemma sched_loop_selects_ready:
  "sched_loop itcnt node k vis = (Some m, k', vis') \<Longrightarrow>
     m < length (task_nodes k) \<and> state (task_nodes k ! m) = TASK_READY \<and> rt_prio (task_nodes k ! m) = 0"
proof (induction itcnt node k vis arbitrary: k' vis' rule: sched_loop.induct)
  case (1 itcnt node k vis)
  show ?case
  proof (cases "itcnt < SCHED_IMAX")
    case False
    with "1.prems" show ?thesis by (auto simp: sched_loop_stop)
  next
    case lt: True
    show ?thesis
    proof (cases "list_cnext (tasks k) node")
      case None
      with "1.prems" show ?thesis by (auto simp: sched_loop_break)
    next
      case (Some n)
      have nlt: "n < length (task_nodes k)" using Some by (rule list_cnext_Some)
      let ?t = "task_nodes k ! n"
      let ?c = "if prio_counter (prio ?t) \<noteq> 0 then prio_counter (prio ?t) - 1 else prio_counter (prio ?t)"
      consider (skip) "state ?t \<noteq> TASK_READY \<or> rt_prio ?t \<noteq> 0"
        | (sel) "\<not> (state ?t \<noteq> TASK_READY \<or> rt_prio ?t \<noteq> 0)" "?c = 0"
        | (dec) "\<not> (state ?t \<noteq> TASK_READY \<or> rt_prio ?t \<noteq> 0)" "?c \<noteq> 0"
        by blast
      then show ?thesis
      proof cases
        case skip
        from "1.prems" have "sched_loop (Suc itcnt) n k (vis @ [n]) = (Some m, k', vis')"
          by (simp add: sched_loop_skip[OF lt Some skip])
        from "1.IH"(1)[OF lt Some skip this] show ?thesis .
      next
        case sel
        from "1.prems" have "m = n"
          unfolding sched_loop_select[OF lt Some sel] by simp
        with nlt sel show ?thesis by simp
      next
        case dec
        from "1.prems" have "sched_loop (Suc itcnt) n
           (set_node n (?t\<lparr>prio := prio_set_counter (prio ?t) (prio_counter (prio ?t) - 1)\<rparr>) k)
           (vis @ [n]) = (Some m, k', vis')"
          by (simp add: sched_loop_dec[OF lt Some dec])
        from "1.IH"(2)[OF lt Some dec this] nlt dec show ?thesis
          by (cases "m = n") (auto simp: nth_list_update)
      qed
    qed
  qed
qed

lemma sched_loop_no_ready:
  "\<forall>t \<in> set (task_nodes k). state t \<noteq> TASK_READY \<Longrightarrow> fst (sched_loop itcnt node k vis) = None"
proof (induction itcnt node k vis rule: sched_loop.induct)
  case (1 itcnt node k vis)
  show ?case
  proof (cases "itcnt < SCHED_IMAX")
    case False
    then show ?thesis by (simp add: sched_loop_stop)
  next
    case lt: True
    show ?thesis
    proof (cases "list_cnext (tasks k) node")
      case None
      then show ?thesis by (simp add: sched_loop_break)
    next
      case (Some n)
      have nlt: "n < length (task_nodes k)" using Some by (rule list_cnext_Some)
      with "1.prems" have skip: "state (task_nodes k ! n) \<noteq> TASK_READY \<or> rt_prio (task_nodes k ! n) \<noteq> 0"
        by simp
      from "1.IH"(1)[OF lt Some skip "1.prems"] show ?thesis
        by (simp add: sched_loop_skip[OF lt Some skip])
    qed
  qed
qed


lemma sched_loop_visits:
  "length (snd (snd (sched_loop itcnt node k vis))) \<le> length vis + (SCHED_IMAX - itcnt)"
proof (induction itcnt node k vis rule: sched_loop.induct)
  case (1 itcnt node k vis)
  show ?case
  proof (cases "itcnt < SCHED_IMAX")
    case False
    then show ?thesis by (subst sched_loop.simps) simp
  next
    case lt: True
    show ?thesis
    proof (cases "list_cnext (tasks k) node")
      case None
      with lt show ?thesis by (subst sched_loop.simps) simp
    next
      case (Some n)
      show ?thesis
        using lt Some "1.IH"(1)[OF lt Some] "1.IH"(2)[OF lt Some]
        by (subst sched_loop.simps) (auto simp: Let_def)
    qed
  qed
qed

lemma task_nodes_example [simp]: "task_nodes (example_kcb ts pre) = ts"
  by (simp add: task_nodes_def example_kcb_def)

lemma find_next_ready_task_visits:
  "length (snd (snd (find_next_ready_task k))) \<le> SCHED_IMAX"
  using sched_loop_visits[of 0 _ k "[]"]
  by (auto simp: find_next_ready_task_def split: option.splits)

lemma schedule_next_task_none:
  "task_current k = Some cur \<Longrightarrow> fst (find_next_ready_task (mark_current_ready cur k)) = None
   \<Longrightarrow> schedule_next_task k = Panic ERR_NO_TASKS"
  by (auto simp: schedule_next_task_def split: prod.splits option.splits)

text \<open>
  Claim C5.  The ready-task search visits at most \<open>SCHED_IMAX = 500\<close> nodes of the
  circular task list (the third component of the result of \<open>find_next_ready_task\<close>
  lists the nodes visited), and when the search fails \<open>schedule_next_task\<close> panics
  with \<open>ERR_NO_TASKS\<close>.  The search is a total function: it always returns.
\<close>

theorem sched_iteration_cap:
  "SCHED_IMAX = 500 \<and> length (snd (snd (find_next_ready_task k))) \<le> SCHED_IMAX \<and>
   (task_current k = Some cur \<longrightarrow> fst (find_next_ready_task (mark_current_ready cur k)) = None
      \<longrightarrow> schedule_next_task k = Panic ERR_NO_TASKS)"
  using find_next_ready_task_visits schedule_next_task_none
  by (simp add: SCHED_IMAX_def)

lemma find_next_no_ready:
  "\<forall>t \<in> set (task_nodes k). state t \<noteq> TASK_READY \<Longrightarrow> last_ready_hint k = None \<Longrightarrow>
   fst (find_next_ready_task k) = None"
  by (auto simp: find_next_ready_task_def hint_is_ready_def sched_loop_no_ready split: option.splits)

lemma sched_loop_simp_dec:
  "itcnt < SCHED_IMAX \<Longrightarrow> list_cnext (tasks k) node = Some n \<Longrightarrow>
   state (task_nodes k ! n) = TASK_READY \<Longrightarrow> rt_prio (task_nodes k ! n) = 0 \<Longrightarrow>
   prio_counter (prio (task_nodes k ! n)) \<noteq> 0 \<Longrightarrow> prio_counter (prio (task_nodes k ! n)) \<noteq> 1 \<Longrightarrow>
   sched_loop itcnt node k vis =
     sched_loop (Suc itcnt) n
       (set_node n ((task_nodes k ! n)
          \<lparr>prio := prio_set_counter (prio (task_nodes k ! n))
                     (prio_counter (prio (task_nodes k ! n)) - 1)\<rparr>) k)
       (vis @ [n])"
  by (rule sched_loop_dec) auto

text \<open>
  The cap is reached with ready tasks in the list.  Three tasks of idle priority start
  with a countdown of 255 each; the running one yields.  The walk visits 500 nodes,
  lowers the countdowns to 89, 88 and 88, selects nothing, and the scheduler panics.
\<close>

lemma three_idle_search:
  "(case find_next_ready_task (mark_current_ready 0 kcb_three_idle) of
      (r, k', vis) \<Rightarrow> r = None \<and> length vis = 500 \<and> last_ready_hint k' = None \<and>
                       map prio (task_nodes k') = [0xFF59, 0xFF58, 0xFF58])"
  apply (simp add: find_next_ready_task_def mark_current_ready_def kcb_three_idle_def example_kcb_def
     kernel_state_def example_tcb_def hint_is_ready_def task_nodes_def set_node_def TASK_PRIO_IDLE_def)
  apply (simp add: sched_loop_simp_dec sched_loop_stop SCHED_IMAX_def list_cnext_def task_nodes_def
     set_node_def prio_counter_def prio_set_counter_def)
  done

theorem sched_iteration_cap_witness:
  "task_current kcb_three_idle = Some 0 \<and>
   fst (find_next_ready_task (mark_current_ready 0 kcb_three_idle)) = None \<and>
   length (snd (snd (find_next_ready_task (mark_current_ready 0 kcb_three_idle)))) = 500 \<and>
   length (snd (snd (find_next_ready_task kcb_three_idle))) \<le> 500 \<and>
   schedule_next_task kcb_three_idle = Panic ERR_NO_TASKS"
proof -
  have c: "task_current kcb_three_idle = Some 0"
    by (simp add: kcb_three_idle_def example_kcb_def)
  from three_idle_search
  have f: "fst (find_next_ready_task (mark_current_ready 0 kcb_three_idle)) = None"
    and l: "length (snd (snd (find_next_ready_task (mark_current_ready 0 kcb_three_idle)))) = 500"
    by (auto split: prod.splits)
  from sched_iteration_cap[of kcb_three_idle 0] c f l show ?thesis by simp
qed


section \<open>Properties of the task API\<close>

lemma find_next_ready_task_frame:
  "find_next_ready_task k = (r, k', vis') \<Longrightarrow>
     map state (task_nodes k') = map state (task_nodes k)
     \<and> map delay (task_nodes k') = map delay (task_nodes k)
     \<and> stack_check_counter k' = stack_check_counter k
     \<and> task_current k' = task_current k"
  by (auto simp: find_next_ready_task_def map_update split: option.splits dest: sched_loop_frame)

lemma mark_current_ready_counter [simp]:
  "stack_check_counter (mark_current_ready cur k) = stack_check_counter k"
  by (simp add: mark_current_ready_def)

lemma schedule_next_task_counter:
  "schedule_next_task k = Return (tid, k') \<Longrightarrow> stack_check_counter k' = stack_check_counter k"
  by (auto simp: schedule_next_task_def Let_def split: option.splits prod.splits
           dest!: find_next_ready_task_frame)

lemma delay_update_all_counter [simp]:
  "stack_check_counter (delay_update_all k) = stack_check_counter k"
  by (simp add: delay_update_all_def)

lemma task_stack_check_counter:
  "task_stack_check k = Return k' \<Longrightarrow> stack_check_counter k' \<noteq> stack_check_counter k"
proof -
  assume a: "task_stack_check k = Return k'"
  let ?c = "stack_check_counter k"
  have "stack_check_counter k' = (if STACK_CHECK_INTERVAL \<le> ?c + 1 then 0 else ?c + 1)"
    using a by (auto simp: task_stack_check_def Let_def split: if_splits option.splits)
  moreover have "STACK_CHECK_INTERVAL \<le> ?c + 1 \<Longrightarrow> ?c \<noteq> 0"
    by (auto simp: STACK_CHECK_INTERVAL_def word_le_nat_alt)
  ultimately show ?thesis by (auto split: if_splits)
qed

lemma yield_changes_state:
  assumes "task_current k \<noteq> None" shows "yield k \<noteq> Return k"
proof
  assume y: "yield k = Return k"
  from assms obtain cur where cur: "task_current k = Some cur" by auto
  from y cur obtain k1 tid where
    sc: "task_stack_check k = Return k1" and
    sn: "schedule_next_task (if \<not> preemptive k1 then delay_update_all k1 else k1) = Return (tid, k)"
    by (auto simp: yield_def Let_def split: outcome.splits prod.splits)
  from schedule_next_task_counter[OF sn] have "stack_check_counter k = stack_check_counter k1"
    by (simp split: if_splits)
  with task_stack_check_counter[OF sc] show False by simp
qed

text \<open>
  Claim C10.  \<open>mo_task_delay 0\<close> returns at once and leaves the whole kernel state as
  it was; no yield takes place, for a yield by a current task always changes the
  state (it advances the stack-check counter).  For \<open>n > 0\<close> the caller gets
  \<open>delay = n\<close> and state \<open>TASK_BLOCKED\<close>, and \<open>mo_task_yield\<close> runs on that state.
\<close>

theorem mo_task_delay_zero_returns:
  "mo_task_delay 0 k = Return k \<and>
   (task_current k \<noteq> None \<longrightarrow> mo_task_yield k \<noteq> Return k) \<and>
   (n \<noteq> 0 \<longrightarrow> task_current k = Some cur \<longrightarrow> cur < length (task_nodes k) \<longrightarrow>
      mo_task_delay n k = mo_task_yield (block_current n cur k) \<and>
      state (task_nodes (block_current n cur k) ! cur) = TASK_BLOCKED \<and>
      delay (task_nodes (block_current n cur k) ! cur) = n)"
  using yield_changes_state[of k]
  by (simp add: mo_task_delay_def mo_task_yield_def block_current_def)

theorem mo_task_delay_zero_returns_witness:
  "mo_task_delay 0 kcb_two_ready = Return kcb_two_ready \<and>
   task_current kcb_two_ready \<noteq> None \<and> mo_task_yield kcb_two_ready \<noteq> Return kcb_two_ready \<and>
   (3 :: 16 word) \<noteq> 0 \<and> task_current kcb_two_ready = Some 0 \<and> 0 < length (task_nodes kcb_two_ready) \<and>
   mo_task_delay 3 kcb_two_ready = mo_task_yield (block_current 3 0 kcb_two_ready) \<and>
   state (task_nodes (block_current 3 0 kcb_two_ready) ! 0) = TASK_BLOCKED \<and>
   delay (task_nodes (block_current 3 0 kcb_two_ready) ! 0) = 3"
proof -
  have c: "task_current kcb_two_ready = Some 0"
    by (simp add: kcb_two_ready_def example_kcb_def)
  have l: "0 < length (task_nodes kcb_two_ready)"
    by (simp add: kcb_two_ready_def)
  from mo_task_delay_zero_returns[of kcb_two_ready 3 0] c l show ?thesis by simp
qed

lemma prio_base_dup_base: "prio_base (dup_base p) = prio_base p"
  unfolding prio_base_def dup_base_def
  by (rule bit_word_eqI) (auto simp: bit_simps)

lemma prio_counter_dup_base: "prio_counter (dup_base p) = prio_base p"
  unfolding prio_base_def prio_counter_def dup_base_def
  by (rule bit_word_eqI) (auto simp: bit_simps)

lemma spawn_prio_value: "spawn_prio = 0x1F00"
  by (simp add: spawn_prio_def TASK_PRIO_NORMAL_def)

lemma spawn_prio_bytes: "prio_base spawn_prio = prio_base TASK_PRIO_NORMAL \<and> prio_counter spawn_prio = 0"
  by (simp add: spawn_prio_value prio_base_def prio_counter_def TASK_PRIO_NORMAL_def)

lemma valid_priorities_dup: "\<forall>p \<in> set valid_priorities. prio_counter p = prio_base p \<and> dup_base p = p"
  by (simp add: valid_priorities_def prio_base_def prio_counter_def dup_base_def
      TASK_PRIO_CRIT_def TASK_PRIO_REALTIME_def TASK_PRIO_HIGH_def TASK_PRIO_ABOVE_def
      TASK_PRIO_NORMAL_def TASK_PRIO_BELOW_def TASK_PRIO_LOW_def TASK_PRIO_IDLE_def)

lemma task_nodes_cache_task [simp]: "task_nodes (cache_task i n k) = task_nodes k"
  by (simp add: cache_task_def task_nodes_def)

lemma mo_task_spawn_prio:
  assumes "mo_task_spawn e sz h k = Return (i, k')"
  shows "prio (task_nodes k' ! length (task_nodes k)) = spawn_prio
         \<and> length (task_nodes k') = Suc (length (task_nodes k))
         \<and> state (task_nodes k' ! length (task_nodes k)) = TASK_READY"
  using assms
  by (auto simp: mo_task_spawn_def Let_def list_pushback_def task_nodes_def set_node_def cache_task_def
           split: if_splits)

lemma list_foreach_idcmp_fst [simp]: "fst (list_foreach (idcmp i) xs) = xs"
  by (induction xs) (auto simp: idcmp_def split: prod.splits bool.splits)

lemma find_task_node_by_id_frame:
  "find_task_node_by_id i k = (r, k1) \<Longrightarrow>
     tasks k1 = tasks k \<and> task_current k1 = task_current k \<and> last_ready_hint k1 = last_ready_hint k
     \<and> preemptive k1 = preemptive k \<and> stack_check_counter k1 = stack_check_counter k"
  by (auto simp: find_task_node_by_id_def cache_task_def split: if_splits option.splits)

lemma find_task_node_by_id_nodes:
  "find_task_node_by_id i k = (r, k1) \<Longrightarrow> task_nodes k1 = task_nodes k"
  by (drule find_task_node_by_id_frame) (simp add: task_nodes_def)

lemma find_task_node_by_id_nonzero:
  "find_task_node_by_id i k = (Some n, k1) \<Longrightarrow> i \<noteq> 0"
  by (auto simp: find_task_node_by_id_def split: if_splits)

lemma mo_task_priority_sets:
  assumes "is_valid_priority p" "find_task_node_by_id i k = (Some n, k1)" "n < length (task_nodes k)"
  shows "mo_task_priority i p k =
           (ERR_OK, set_node n ((task_nodes k1 ! n)\<lparr>prio := dup_base p\<rparr>) k1)
         \<and> prio (task_nodes (snd (mo_task_priority i p k)) ! n) = dup_base p"
  using assms find_task_node_by_id_nonzero[OF assms(2)] find_task_node_by_id_nodes[OF assms(2)]
  by (simp add: mo_task_priority_def)

text \<open>
  Claim C2 (amended).  A task created by \<open>mo_task_spawn\<close> gets the priority word
  \<open>0x1F00\<close>: the base byte of \<open>TASK_PRIO_NORMAL\<close> in the high half and a countdown
  of zero in the low half, so that it is eligible at once.  The eight named priority
  constants carry the same byte in both halves, and \<open>mo_task_priority\<close> stores the
  base byte of the requested priority in both halves.
\<close>

theorem spawn_priority_word:
  "(mo_task_spawn e sz h k = Return (i, k') \<longrightarrow>
      prio_base (prio (task_nodes k' ! length (task_nodes k))) = prio_base TASK_PRIO_NORMAL \<and>
      prio_counter (prio (task_nodes k' ! length (task_nodes k))) = 0) \<and>
   (\<forall>p \<in> set valid_priorities. prio_counter p = prio_base p) \<and>
   (is_valid_priority p \<longrightarrow> find_task_node_by_id j kp = (Some n, k1) \<longrightarrow> n < length (task_nodes kp) \<longrightarrow>
      fst (mo_task_priority j p kp) = ERR_OK \<and>
      prio_base (prio (task_nodes (snd (mo_task_priority j p kp)) ! n)) = prio_base p \<and>
      prio_counter (prio (task_nodes (snd (mo_task_priority j p kp)) ! n)) = prio_base p)"
  using mo_task_spawn_prio[of e sz h k i k'] spawn_prio_bytes valid_priorities_dup
    mo_task_priority_sets[of p j kp n k1]
  by (auto simp: prio_base_dup_base prio_counter_dup_base)

text \<open>
  The claim as stated fails on the first task spawned on the initial kernel state:
  its countdown byte is \<open>0\<close> while its base byte is \<open>0x1F\<close>.
\<close>

theorem spawn_prio_counter_zero:
  "(case mo_task_spawn 64 512 example_heap kernel_state of
      Panic e \<Rightarrow> False
    | Return (i, k') \<Rightarrow>
        i = 1 \<and> prio (task_nodes k' ! 0) = 0x1F00 \<and>
        prio_base (prio (task_nodes k' ! 0)) = 0x1F \<and>
        prio_counter (prio (task_nodes k' ! 0)) = 0 \<and>
        prio_counter (prio (task_nodes k' ! 0)) \<noteq> prio_base (prio (task_nodes k' ! 0)))"
  by (simp add: mo_task_spawn_def example_heap_def kernel_state_def Let_def task_nodes_def
      list_pushback_def cache_task_def set_node_def spawn_prio_value prio_base_def prio_counter_def)

lemma find_example:
  "find_task_node_by_id 2 kcb_two_ready = (Some 1, cache_task 2 1 kcb_two_ready)"
  by (simp add: find_task_node_by_id_def kcb_two_ready_def example_kcb_def kernel_state_def
      cache_lookup_task_def TASK_CACHE_SIZE_def task_nodes_def idcmp_def example_tcb_def cache_task_def)

lemma spawn_example: "mo_task_spawn 64 512 example_heap kernel_state = Return (1, kcb_after_spawn)"
  by (simp add: mo_task_spawn_def example_heap_def kernel_state_def Let_def task_nodes_def
      list_pushback_def cache_task_def set_node_def spawn_prio_value kcb_after_spawn_def
      new_stack_size_def MIN_TASK_STACK_SIZE_def TASK_CACHE_SIZE_def)

theorem spawn_priority_word_witness:
  "mo_task_spawn 64 512 example_heap kernel_state = Return (1, kcb_after_spawn) \<and>
   prio_base (prio (task_nodes kcb_after_spawn ! length (task_nodes kernel_state))) = prio_base TASK_PRIO_NORMAL \<and>
   prio_counter (prio (task_nodes kcb_after_spawn ! length (task_nodes kernel_state))) = 0 \<and>
   TASK_PRIO_HIGH \<in> set valid_priorities \<and> prio_counter TASK_PRIO_HIGH = prio_base TASK_PRIO_HIGH \<and>
   is_valid_priority TASK_PRIO_HIGH \<and>
   find_task_node_by_id 2 kcb_two_ready = (Some 1, cache_task 2 1 kcb_two_ready) \<and>
   1 < length (task_nodes kcb_two_ready) \<and>
   fst (mo_task_priority 2 TASK_PRIO_HIGH kcb_two_ready) = ERR_OK \<and>
   prio_base (prio (task_nodes (snd (mo_task_priority 2 TASK_PRIO_HIGH kcb_two_ready)) ! 1)) = prio_base TASK_PRIO_HIGH \<and>
   prio_counter (prio (task_nodes (snd (mo_task_priority 2 TASK_PRIO_HIGH kcb_two_ready)) ! 1)) = prio_base TASK_PRIO_HIGH"
proof -
  have v: "is_valid_priority TASK_PRIO_HIGH" "TASK_PRIO_HIGH \<in> set valid_priorities"
    by (simp_all add: is_valid_priority_def valid_priorities_def)
  have l: "1 < length (task_nodes kcb_two_ready)"
    by (simp add: kcb_two_ready_def)
  from spawn_priority_word[of 64 512 example_heap kernel_state 1 kcb_after_spawn TASK_PRIO_HIGH 2
      kcb_two_ready 1 "cache_task 2 1 kcb_two_ready"] spawn_example find_example v l
  show ?thesis by simp
qed

lemma delay_update_node_suspended:
  "state t = TASK_SUSPENDED \<Longrightarrow> delay_update_node t = (t, False)"
  by (simp add: delay_update_node_def)

lemma find_next_ready_task_selects_ready:
  assumes "fst (find_next_ready_task k) = Some m"
  shows "state (task_nodes k ! m) = TASK_READY"
proof (cases "task_current k")
  case None
  with assms show ?thesis by (simp add: find_next_ready_task_def)
next
  case (Some cur)
  show ?thesis
  proof (cases "hint_is_ready k")
    case None
    with Some assms obtain k' vis' where "sched_loop 0 cur k [] = (Some m, k', vis')"
      by (cases "sched_loop 0 cur k []") (auto simp: find_next_ready_task_def)
    from sched_loop_selects_ready[OF this] show ?thesis by simp
  next
    case (Some h)
    with \<open>task_current k = Some cur\<close> assms have "m = h"
      by (simp add: find_next_ready_task_def)
    with Some show ?thesis
      by (auto simp: hint_is_ready_def Let_def split: option.splits if_splits)
  qed
qed

lemma mo_task_suspend_blocked:
  assumes f: "find_task_node_by_id i k = (Some n, k1)" and n: "n < length (task_nodes k)"
    and b: "state (task_nodes k ! n) = TASK_BLOCKED" and c: "task_current k \<noteq> Some n"
  shows "\<exists>k'. mo_task_suspend i k = Return (ERR_OK, k') \<and>
              state (task_nodes k' ! n) = TASK_SUSPENDED \<and>
              delay (task_nodes k' ! n) = delay (task_nodes k ! n)"
proof -
  note fr = find_task_node_by_id_frame[OF f] find_task_node_by_id_nodes[OF f]
    find_task_node_by_id_nonzero[OF f]
  show ?thesis
    using f n b c fr
    by (auto simp: mo_task_suspend_def Let_def)
qed

lemma mo_task_resume_suspended:
  assumes f: "find_task_node_by_id i k = (Some n, k1)" and n: "n < length (task_nodes k)"
    and b: "state (task_nodes k ! n) = TASK_SUSPENDED"
  shows "fst (mo_task_resume i k) = ERR_OK \<and>
         state (task_nodes (snd (mo_task_resume i k)) ! n) = TASK_READY \<and>
         delay (task_nodes (snd (mo_task_resume i k)) ! n) = delay (task_nodes k ! n)"
  using f n b find_task_node_by_id_nodes[OF f] find_task_node_by_id_nonzero[OF f]
  by (simp add: mo_task_resume_def Let_def)

text \<open>
  Claim C3 (amended).  \<open>mo_task_suspend\<close> on a task that is \<open>TASK_BLOCKED\<close> with a delay
  pending makes it \<open>TASK_SUSPENDED\<close> and keeps its delay.  While it is suspended the
  delay is not aged (\<open>delay_update\<close> leaves it alone) and the ready search never
  selects it.  \<open>mo_task_resume\<close> makes it \<open>TASK_READY\<close> at once, whatever delay
  remains: nothing defers the resumption until the delay has run out.
\<close>

theorem suspend_freezes_resume_readies:
  "(find_task_node_by_id i k = (Some n, k1) \<longrightarrow> n < length (task_nodes k) \<longrightarrow>
      state (task_nodes k ! n) = TASK_BLOCKED \<longrightarrow> task_current k \<noteq> Some n \<longrightarrow>
      (\<exists>k'. mo_task_suspend i k = Return (ERR_OK, k') \<and>
            state (task_nodes k' ! n) = TASK_SUSPENDED \<and>
            delay (task_nodes k' ! n) = delay (task_nodes k ! n))) \<and>
   (state t = TASK_SUSPENDED \<longrightarrow> delay_update_node t = (t, False)) \<and>
   (fst (find_next_ready_task ks) = Some m \<longrightarrow> state (task_nodes ks ! m) \<noteq> TASK_SUSPENDED) \<and>
   (find_task_node_by_id j kr = (Some nr, k2) \<longrightarrow> nr < length (task_nodes kr) \<longrightarrow>
      state (task_nodes kr ! nr) = TASK_SUSPENDED \<longrightarrow>
      fst (mo_task_resume j kr) = ERR_OK \<and>
      state (task_nodes (snd (mo_task_resume j kr)) ! nr) = TASK_READY \<and>
      delay (task_nodes (snd (mo_task_resume j kr)) ! nr) = delay (task_nodes kr ! nr))"
  using mo_task_suspend_blocked[of i k n k1] delay_update_node_suspended[of t]
    find_next_ready_task_selects_ready[of ks m] mo_task_resume_suspended[of j kr nr k2]
  by auto

lemmas example_defs = kcb_sleeper_def example_kcb_def kernel_state_def example_tcb_def
  task_nodes_def set_node_def cache_task_def TASK_CACHE_SIZE_def

lemma find_sleeper: "find_task_node_by_id 2 kcb_sleeper = (Some 1, cache_task 2 1 kcb_sleeper)"
  by (simp add: find_task_node_by_id_def cache_lookup_task_def idcmp_def example_defs)

lemma suspend_sleeper: "mo_task_suspend 2 kcb_sleeper = Return (ERR_OK, kcb_sleeper_suspended)"
  by (simp add: mo_task_suspend_def find_sleeper Let_def kcb_sleeper_suspended_def)
     (simp add: example_defs)

lemma find_sleeper_suspended:
  "find_task_node_by_id 2 kcb_sleeper_suspended = (Some 1, kcb_sleeper_suspended)"
  by (simp add: find_task_node_by_id_def cache_lookup_task_def idcmp_def example_defs
      kcb_sleeper_suspended_def is_valid_task_def MIN_TASK_STACK_SIZE_def)

lemma resume_sleeper: "mo_task_resume 2 kcb_sleeper_suspended = (ERR_OK, kcb_sleeper_resumed)"
  by (simp add: mo_task_resume_def find_sleeper_suspended Let_def)
     (simp add: kcb_sleeper_suspended_def kcb_sleeper_resumed_def example_defs)

lemma yield_sleeper: "mo_task_yield kcb_sleeper_resumed = Return kcb_sleeper_running"
  apply (simp add: mo_task_yield_def yield_def kcb_sleeper_resumed_def example_defs
      task_stack_check_def Let_def STACK_CHECK_INTERVAL_def word_le_nat_alt
      delay_update_all_def delay_update_node_def
      schedule_next_task_def mark_current_ready_def find_next_ready_task_def hint_is_ready_def)
  apply (subst sched_loop.simps)
  apply (simp add: SCHED_IMAX_def list_cnext_def example_defs TASK_PRIO_CRIT_def prio_counter_def
      prio_reload_def prio_set_counter_def prio_base_def kcb_sleeper_running_def TASK_PRIO_NORMAL_def)
  done

text \<open>
  The claim as stated fails.  In a cooperative kernel, task 2 sleeps with five ticks
  of delay left while task 1 runs.  Task 1 suspends task 2, resumes it and yields:
  task 2 is now running, no tick has passed and its delay is still five.
\<close>

theorem resumed_task_runs_before_delay_expires:
  "state (task_nodes kcb_sleeper ! 1) = TASK_BLOCKED \<and> delay (task_nodes kcb_sleeper ! 1) = 5 \<and>
   suspend_resume_yield 2 kcb_sleeper = Return kcb_sleeper_running \<and>
   task_current kcb_sleeper_running = Some 1 \<and>
   state (task_nodes kcb_sleeper_running ! 1) = TASK_RUNNING \<and>
   delay (task_nodes kcb_sleeper_running ! 1) = 5 \<and>
   ticks kcb_sleeper_running = ticks kcb_sleeper"
  by (simp add: suspend_resume_yield_def suspend_sleeper resume_sleeper yield_sleeper)
     (simp add: kcb_sleeper_running_def example_defs)

theorem suspend_freezes_resume_readies_witness:
  "find_task_node_by_id 2 kcb_sleeper = (Some 1, cache_task 2 1 kcb_sleeper) \<and>
   1 < length (task_nodes kcb_sleeper) \<and> state (task_nodes kcb_sleeper ! 1) = TASK_BLOCKED \<and>
   task_current kcb_sleeper \<noteq> Some 1 \<and>
   mo_task_suspend 2 kcb_sleeper = Return (ERR_OK, kcb_sleeper_suspended) \<and>
   state (task_nodes kcb_sleeper_suspended ! 1) = TASK_SUSPENDED \<and>
   delay (task_nodes kcb_sleeper_suspended ! 1) = 5 \<and>
   delay_update_node (task_nodes kcb_sleeper_suspended ! 1) = (task_nodes kcb_sleeper_suspended ! 1, False) \<and>
   fst (find_next_ready_task kcb_two_ready) = Some 1 \<and>
   state (task_nodes kcb_two_ready ! 1) \<noteq> TASK_SUSPENDED \<and>
   find_task_node_by_id 2 kcb_sleeper_suspended = (Some 1, kcb_sleeper_suspended) \<and>
   fst (mo_task_resume 2 kcb_sleeper_suspended) = ERR_OK \<and>
   state (task_nodes (snd (mo_task_resume 2 kcb_sleeper_suspended)) ! 1) = TASK_READY \<and>
   delay (task_nodes (snd (mo_task_resume 2 kcb_sleeper_suspended)) ! 1) = 5"
proof -
  have a: "1 < length (task_nodes kcb_sleeper)" "state (task_nodes kcb_sleeper ! 1) = TASK_BLOCKED"
    "task_current kcb_sleeper \<noteq> Some 1" "delay (task_nodes kcb_sleeper ! 1) = 5"
    by (simp_all add: example_defs)
  have b: "1 < length (task_nodes kcb_sleeper_suspended)"
    "state (task_nodes kcb_sleeper_suspended ! 1) = TASK_SUSPENDED"
    "delay (task_nodes kcb_sleeper_suspended ! 1) = 5"
    by (simp_all add: kcb_sleeper_suspended_def example_defs)
  have c: "fst (find_next_ready_task kcb_two_ready) = Some 1"
    apply (simp add: find_next_ready_task_def hint_is_ready_def kcb_two_ready_def example_defs)
    apply (subst sched_loop.simps)
    apply (simp add: SCHED_IMAX_def list_cnext_def example_defs TASK_PRIO_CRIT_def prio_counter_def)
    done
  from suspend_freezes_resume_readies[of 2 kcb_sleeper 1 "cache_task 2 1 kcb_sleeper"
      "task_nodes kcb_sleeper_suspended ! 1" kcb_two_ready 1 2 kcb_sleeper_suspended 1
      kcb_sleeper_suspended]
    find_sleeper suspend_sleeper find_sleeper_suspended a b c
  show ?thesis by simp
qed

section \<open>Properties of the semaphore, the mutex and the message queue\<close>

lemma sint_succ_below:
  fixes c m :: "32 word"
  assumes "c <s m" shows "sint (c + 1) = sint c + 1"
proof -
  have "sint c < sint m" using assms by (simp add: word_sless_alt)
  moreover have "sint m < 2 ^ 31" using sint_lt[of m] by simp
  moreover have "- (2 ^ 31) \<le> sint c" using sint_ge[of c] by simp
  ultimately have r: "- (2 ^ 31) \<le> sint c + 1" "sint c + 1 < 2 ^ 31" by linarith+
  have "sint (c + 1) = signed_take_bit 31 (sint c + 1)" by (simp add: sint_word_ariths)
  also have "\<dots> = sint c + 1" using r by (simp add: signed_take_bit_int_eq_self)
  finally show ?thesis .
qed

text \<open>A spinlock that is held is never acquired; a free one is taken at once.\<close>

lemma spin_wait_held: "lock \<noteq> 0 \<Longrightarrow> spin_wait lock = None"
proof -
  have "lock = 0" if "spin_wait lock = Some l" for l
    using that
    by (rule spin_wait.raw_induct[where P = "\<lambda>lock l. lock = 0", rotated 1])
       (auto split: if_splits)
  then show "lock \<noteq> 0 \<Longrightarrow> spin_wait lock = None"
    by (cases "spin_wait lock") auto
qed

lemma spin_lock_eq: "spin_lock lock = (if lock = 0 then Some 1 else None)"
proof (cases "lock = 0")
  case True
  have "spin_lock lock =
            (if lock \<noteq> 0 then (case spin_wait 1 of None \<Rightarrow> None | Some l \<Rightarrow> spin_lock l) else Some 1)"
    by (rule spin_lock.simps)
  also have "\<dots> = Some 1" using True by simp
  finally show ?thesis using True by simp
next
  case False
  have "spin_lock lock =
            (if lock \<noteq> 0 then (case spin_wait 1 of None \<Rightarrow> None | Some l \<Rightarrow> spin_lock l) else Some 1)"
    by (rule spin_lock.simps)
  also have "\<dots> = None" using False spin_wait_held[of 1] by simp
  finally show ?thesis using False by simp
qed

lemma spin_lock_irqsave_eq: "spin_lock_irqsave lock = (if lock = 0 then Some 1 else None)"
  by (simp add: spin_lock_irqsave_def spin_lock_eq)

lemma spin_unlock_irqrestore_eq [simp]: "spin_unlock_irqrestore lock = 0"
  by (simp add: spin_unlock_irqrestore_def spin_unlock_def)

text \<open>
  With \<open>semaphore_lock\<close> held, \<open>mo_sem_signal\<close> on a valid semaphore never returns.
\<close>

lemma mo_sem_signal_lock_held:
  "sem_is_valid s \<Longrightarrow> semaphore_lock \<noteq> 0 \<Longrightarrow> mo_sem_signal M semaphore_lock s k = None"
  by (simp add: mo_sem_signal_def spin_lock_irqsave_eq)

text \<open>
  With \<open>semaphore_lock\<close> free, \<open>mo_sem_signal\<close> on a valid semaphore does one of two
  things and releases the lock.  If the wait queue is not empty it removes the oldest
  waiter, which must be \<open>TASK_BLOCKED\<close> (otherwise the kernel panics), makes it
  \<open>TASK_READY\<close>, yields and leaves \<open>count\<close> as it was.  If the queue is empty no task
  is touched and \<open>count\<close> goes up by one while it is below \<open>SEM_MAX_COUNT\<close> (here
  \<open>M\<close>).
\<close>

lemma mo_sem_signal_lock_free:
  assumes "sem_is_valid s" "wait_q s = Some wq"
  shows "(q_items wq = w # ws \<longrightarrow>
            (state (task_nodes k ! w) = TASK_BLOCKED \<longrightarrow>
               mo_sem_signal M 0 s k =
                 (case mo_task_yield (set_node w ((task_nodes k ! w)\<lparr>state := TASK_READY\<rparr>) k) of
                    Panic e \<Rightarrow> Some (Panic e)
                  | Return k' \<Rightarrow> Some (Return (0, s\<lparr>wait_q := Some (wq\<lparr>q_items := ws\<rparr>)\<rparr>, k'))) \<and>
               count (s\<lparr>wait_q := Some (wq\<lparr>q_items := ws\<rparr>)\<rparr>) = count s) \<and>
            (state (task_nodes k ! w) \<noteq> TASK_BLOCKED \<longrightarrow>
               mo_sem_signal M 0 s k = Some (Panic ERR_SEM_OPERATION))) \<and>
         (q_items wq = [] \<longrightarrow>
            mo_sem_signal M 0 s k =
              Some (Return (0, if count s <s M then s\<lparr>count := count s + 1\<rparr> else s, k)) \<and>
            (count s <s M \<longrightarrow> sint (count (s\<lparr>count := count s + 1\<rparr>)) = sint (count s) + 1 \<and>
                                 sint (count (s\<lparr>count := count s + 1\<rparr>)) \<le> sint M))"
  using assms sint_succ_below[of "count s" M]
  by (auto simp: mo_sem_signal_def sem_is_valid_def queue_count_def queue_dequeue_def word_sless_alt
      spin_lock_irqsave_eq split: outcome.splits)

text \<open>
  \<open>mo_sem_wait\<close> releases \<open>semaphore_lock\<close> exactly when it leaves the wait queue
  alone: a call that has queued its caller hands the lock on held.
\<close>

lemma mo_sem_wait_lock:
  assumes "mo_sem_wait semaphore_lock s k = Some (Return (lk', s', k'))"
  shows "(lk' = 0 \<and> wait_q s' = wait_q s) \<or>
         (lk' = 1 \<and> (\<exists>q self. wait_q s = Some q \<and> task_current k = Some self \<and>
                        wait_q s' = Some (q\<lparr>q_items := q_items q @ [self]\<rparr>)))"
  using assms
  by (auto simp: mo_sem_wait_def spin_lock_irqsave_eq sched_block_def queue_enqueue_def
      split: if_splits option.splits outcome.splits prod.splits)

text \<open>
  With \<open>mutex_lock\<close> held, \<open>mo_mutex_unlock\<close> on a valid mutex never returns, whoever
  calls it.
\<close>

lemma mo_mutex_unlock_lock_held:
  "mutex_is_valid MM m \<Longrightarrow> mutex_lock \<noteq> 0 \<Longrightarrow> mo_mutex_unlock MM mutex_lock m k = None"
  by (simp add: mo_mutex_unlock_def spin_lock_irqsave_eq)

text \<open>
  With \<open>mutex_lock\<close> free, \<open>mo_mutex_unlock\<close> on a valid mutex releases the lock
  again and does the following.  Called by a task that is not the owner it returns
  \<open>ERR_NOT_OWNER\<close> and changes nothing.  Called by the owner with waiters, it pops the
  head waiter, which must be \<open>TASK_BLOCKED\<close> (otherwise the kernel panics), makes it the
  owner and makes it \<open>TASK_READY\<close>.  Called by the owner with no waiter, it sets
  \<open>owner_tid\<close> to \<open>0\<close>.
\<close>

lemma mo_mutex_unlock_lock_free:
  assumes "mutex_is_valid MM m"
  shows "(owner_tid m \<noteq> mo_task_id k \<longrightarrow>
            mo_mutex_unlock MM 0 m k = Some (Return (ERR_NOT_OWNER, 0, m, k))) \<and>
         (owner_tid m = mo_task_id k \<longrightarrow> waiters m = Some (w # ws) \<longrightarrow>
            state (task_nodes k ! w) = TASK_BLOCKED \<longrightarrow>
            mo_mutex_unlock MM 0 m k =
              Some (Return (ERR_OK, 0, m\<lparr>waiters := Some ws, owner_tid := tcb_id (task_nodes k ! w)\<rparr>,
                      set_node w ((task_nodes k ! w)\<lparr>state := TASK_READY\<rparr>) k))) \<and>
         (owner_tid m = mo_task_id k \<longrightarrow> waiters m = Some (w # ws) \<longrightarrow>
            state (task_nodes k ! w) \<noteq> TASK_BLOCKED \<longrightarrow>
            mo_mutex_unlock MM 0 m k = Some (Panic ERR_SEM_OPERATION)) \<and>
         (owner_tid m = mo_task_id k \<longrightarrow> waiters m = Some [] \<longrightarrow>
            mo_mutex_unlock MM 0 m k = Some (Return (ERR_OK, 0, m\<lparr>owner_tid := 0\<rparr>, k)))"
  using assms
  by (auto simp: mo_mutex_unlock_def mutex_is_valid_def list_is_empty_def list_pop_def
      spin_lock_irqsave_eq Let_def)

text \<open>
  \<open>mo_mutex_lock\<close> releases \<open>mutex_lock\<close> exactly when it leaves the waiter list
  alone: a call that has queued its caller hands the lock on held.
\<close>

lemma mo_mutex_lock_lock:
  assumes "mo_mutex_lock MM node_ok mutex_lock m k = Some (Return (rc, lk', m', k'))"
  shows "(lk' = 0 \<and> waiters m' = waiters m) \<or>
         (lk' = 1 \<and> (\<exists>l self. waiters m = Some l \<and> task_current k = Some self \<and>
                        waiters m' = Some (l @ [self])))"
  using assms
  by (auto simp: mo_mutex_lock_def spin_lock_irqsave_eq mutex_block_atomic_def list_pushback_def
      Let_def split: if_splits option.splits outcome.splits prod.splits)


text \<open>\<open>mo_mq_enqueue\<close> hands on the status of the bounded queue: \<open>-1\<close> with the
  queue unchanged when it is full, \<open>0\<close> with the message appended otherwise.\<close>

lemma mo_mq_enqueue_status:
  "mo_mq_enqueue mq msg =
     (if q_capacity (q mq) \<le> queue_count (q mq) then (- 1, mq)
      else (0, mq\<lparr>q := (q mq)\<lparr>q_items := q_items (q mq) @ [msg]\<rparr>\<rparr>))"
  by (simp add: mo_mq_enqueue_def queue_enqueue_def queue_count_def)

lemmas example_defs2 = kcb_waiter_def example_kcb_def kernel_state_def example_tcb_def
  task_nodes_def set_node_def

lemma sem_example_simps [simp]:
  "sem_is_valid (sem_example ws c)"
  "wait_q (sem_example ws c) = Some \<lparr>q_capacity = 4, q_items = ws\<rparr>"
  "count (sem_example ws c) = c"
  "(sem_example ws c)\<lparr>count := c'\<rparr> = sem_example ws c'"
  "(sem_example ws c)\<lparr>wait_q := Some \<lparr>q_capacity = 4, q_items = ws'\<rparr>\<rparr> = sem_example ws' c"
  by (simp_all add: sem_example_def sem_is_valid_def)

lemma mutex_example_simps [simp]:
  "mutex_is_valid 0x4D555458 (mutex_example ws ow)"
  "waiters (mutex_example ws ow) = Some ws"
  "owner_tid (mutex_example ws ow) = ow"
  "(mutex_example ws ow)\<lparr>owner_tid := ow'\<rparr> = mutex_example ws ow'"
  "(mutex_example ws ow)\<lparr>waiters := Some ws', owner_tid := ow'\<rparr> = mutex_example ws' ow'"
  by (simp_all add: mutex_example_def mutex_is_valid_def)

lemma kcb_waiter_simps [simp]:
  "mo_task_id kcb_waiter = 1"
  "state (task_nodes kcb_waiter ! 0) = TASK_RUNNING"
  "state (task_nodes kcb_waiter ! 1) = TASK_BLOCKED"
  "state (task_nodes kcb_waiter ! Suc 0) = TASK_BLOCKED"
  "tcb_id (task_nodes kcb_waiter ! 1) = 2"
  "tcb_id (task_nodes kcb_waiter ! Suc 0) = 2"
  by (simp_all add: mo_task_id_def example_defs2)


text \<open>
  Two tasks of the same priority, the first running.  The states below are reached
  from \<open>kcb_two_crit\<close> by the calls themselves: \<open>kcb_first_blocked\<close> when task 1
  blocks, \<open>kcb_second_runs\<close> when it yields, \<open>kcb_second_blocked\<close> when task 2 then
  blocks.
\<close>

lemmas example_defs3 = kcb_two_crit_def kcb_first_blocked_def kcb_second_runs_def
  kcb_second_blocked_def example_kcb_def kernel_state_def example_tcb_def task_nodes_def set_node_def

lemmas yield_eval = mo_task_yield_def yield_def task_stack_check_def Let_def
  STACK_CHECK_INTERVAL_def word_le_nat_alt schedule_next_task_def mark_current_ready_def
  find_next_ready_task_def hint_is_ready_def

lemmas sched_eval = SCHED_IMAX_def list_cnext_def TASK_PRIO_CRIT_def prio_counter_def
  prio_reload_def prio_set_counter_def prio_base_def

lemma yield_first_blocked:
  "yield (set_node 0 ((task_nodes kcb_two_crit ! 0)\<lparr>state := TASK_BLOCKED\<rparr>) kcb_two_crit)
     = Return kcb_first_blocked"
  apply (simp add: yield_eval example_defs3)
  apply (subst sched_loop.simps)
  apply (simp add: sched_eval example_defs3)
  done

lemma yield_second_runs: "mo_task_yield kcb_two_crit = Return kcb_second_runs"
  apply (simp add: yield_eval example_defs3)
  apply (subst sched_loop.simps)
  apply (simp add: sched_eval example_defs3)
  done

lemma yield_second_blocked:
  "yield (set_node 1 ((task_nodes kcb_second_runs ! 1)\<lparr>state := TASK_BLOCKED\<rparr>) kcb_second_runs)
     = Return kcb_second_blocked"
  apply (simp add: yield_eval example_defs3)
  apply (subst sched_loop.simps)
  apply (simp add: sched_eval example_defs3)
  done

lemma kcb_blocked_simps [simp]:
  "task_current kcb_two_crit = Some 0"
  "task_current kcb_second_runs = Some 1"
  "mo_task_id kcb_two_crit = 1"
  "mo_task_id kcb_second_runs = 2"
  "mo_task_id kcb_first_blocked = 2"
  "mo_task_id kcb_second_blocked = 1"
  "task_current kcb_first_blocked = Some 1"
  "state (task_nodes kcb_first_blocked ! 0) = TASK_BLOCKED"
  "task_current kcb_second_blocked = Some 0"
  "state (task_nodes kcb_second_blocked ! 1) = TASK_BLOCKED"
  "state (task_nodes kcb_second_blocked ! Suc 0) = TASK_BLOCKED"
  by (simp_all add: mo_task_id_def example_defs3)

lemma sem_example_max_waiters [simp]: "max_waiters (sem_example ws c) = 4"
  by (simp add: sem_example_def)

lemma sem_wait_example:
  "mo_sem_wait SPINLOCK_INITIALIZER (sem_example [] 0) kcb_two_crit
     = Some (Return (1, sem_example [0] 0, kcb_first_blocked))"
  by (simp add: mo_sem_wait_def SPINLOCK_INITIALIZER_def spin_lock_irqsave_eq queue_count_def
      sched_block_def queue_enqueue_def yield_first_blocked)

text \<open>
  Claim C1.  The claim has \<open>mo_sem_signal\<close> wake exactly one waiter whenever one is
  queued.  On the kernel's own way to a queued waiter it does not.  Task 1 calls
  \<open>mo_sem_wait\<close> on a semaphore without a token: it is put on the wait queue, set to
  \<open>TASK_BLOCKED\<close> and switched out, and \<open>semaphore_lock\<close> stays held.  Task 2, now
  running, calls \<open>mo_sem_signal\<close>: the call waits for the lock and never returns,
  whatever \<open>SEM_MAX_COUNT\<close> is, so the waiter is not woken.
\<close>

theorem mo_sem_signal_spins_after_wait:
  "mo_sem_wait SPINLOCK_INITIALIZER (sem_example [] 0) kcb_two_crit
     = Some (Return (1, sem_example [0] 0, kcb_first_blocked)) \<and>
   task_current kcb_first_blocked = Some 1 \<and>
   state (task_nodes kcb_first_blocked ! 0) = TASK_BLOCKED \<and>
   mo_sem_signal M 1 (sem_example [0] 0) kcb_first_blocked = None"
  using sem_wait_example mo_sem_signal_lock_held[of "sem_example [0] 0" 1 M kcb_first_blocked]
  by simp

lemma mutex_lock_free_example:
  "mo_mutex_lock 0x4D555458 True SPINLOCK_INITIALIZER (mutex_example [] 0) kcb_two_crit
     = Some (Return (ERR_OK, 0, mutex_example [] 1, kcb_two_crit))"
  by (simp add: mo_mutex_lock_def SPINLOCK_INITIALIZER_def spin_lock_irqsave_eq)

lemma mutex_lock_owned_example:
  "mo_mutex_lock 0x4D555458 True 0 (mutex_example [] 1) kcb_second_runs
     = Some (Return (ERR_OK, 1, mutex_example [1] 1, kcb_second_blocked))"
  using yield_second_blocked
  by (simp add: mo_mutex_lock_def spin_lock_irqsave_eq mutex_block_atomic_def list_pushback_def
      mutex_example_def mutex_is_valid_def)

text \<open>
  Claim C4.  The claim has \<open>mo_mutex_unlock\<close>, called by the owner, hand the mutex to
  the first waiter.  On the kernel's own way to a waiter queued by \<open>mo_mutex_lock\<close> it
  does not.  Task 1 takes a free mutex and yields; task 2 calls \<open>mo_mutex_lock\<close> on
  it: it is appended to the waiter list, set to \<open>TASK_BLOCKED\<close> and switched out, and
  \<open>mutex_lock\<close> stays held.  Task 1, running again and still the owner, calls
  \<open>mo_mutex_unlock\<close>: the call waits for the lock and never returns, so ownership is
  not transferred and the waiter stays blocked.
\<close>

theorem mo_mutex_unlock_spins_after_lock:
  "mo_mutex_lock 0x4D555458 True SPINLOCK_INITIALIZER (mutex_example [] 0) kcb_two_crit
     = Some (Return (ERR_OK, 0, mutex_example [] 1, kcb_two_crit)) \<and>
   mo_task_yield kcb_two_crit = Return kcb_second_runs \<and>
   mo_mutex_lock 0x4D555458 True 0 (mutex_example [] 1) kcb_second_runs
     = Some (Return (ERR_OK, 1, mutex_example [1] 1, kcb_second_blocked)) \<and>
   owner_tid (mutex_example [1] 1) = mo_task_id kcb_second_blocked \<and>
   state (task_nodes kcb_second_blocked ! 1) = TASK_BLOCKED \<and>
   mo_mutex_unlock 0x4D555458 1 (mutex_example [1] 1) kcb_second_blocked = None"
  using mutex_lock_free_example yield_second_runs mutex_lock_owned_example
    mo_mutex_unlock_lock_held[of "0x4D555458" "mutex_example [1] 1" 1 kcb_second_blocked]
  by simp

section \<open>Properties of the pipe\<close>

lemma pipe_wait_until_readable_eq:
  "pipe_wait_until_readable p = (if \<not> pipe_is_empty p then Some () else None)"
proof (cases "pipe_is_empty p")
  case False
  have "pipe_wait_until_readable p =
          (if \<not> pipe_is_empty p then Some () else pipe_wait_until_readable p)"
    by (rule pipe_wait_until_readable.simps)
  also have "\<dots> = Some ()" using False by simp
  finally show ?thesis using False by simp
next
  case True
  have "\<not> pipe_is_empty p" if "pipe_wait_until_readable p = Some u" for u
    using that
    by (rule pipe_wait_until_readable.raw_induct[where P = "\<lambda>p u. \<not> pipe_is_empty p", rotated 1])
       (auto split: if_splits)
  with True show ?thesis by (cases "pipe_wait_until_readable p") auto
qed

lemma pipe_wait_until_writable_eq:
  "pipe_wait_until_writable p = (if \<not> pipe_is_full p then Some () else None)"
proof (cases "pipe_is_full p")
  case False
  have "pipe_wait_until_writable p =
          (if \<not> pipe_is_full p then Some () else pipe_wait_until_writable p)"
    by (rule pipe_wait_until_writable.simps)
  also have "\<dots> = Some ()" using False by simp
  finally show ?thesis using False by simp
next
  case True
  have "\<not> pipe_is_full p" if "pipe_wait_until_writable p = Some u" for u
    using that
    by (rule pipe_wait_until_writable.raw_induct[where P = "\<lambda>p u. \<not> pipe_is_full p", rotated 1])
       (auto split: if_splits)
  with True show ?thesis by (cases "pipe_wait_until_writable p") auto
qed

lemma np2_loop_pow:
  "\<exists>k. j \<le> k \<and> np2_loop (2 ^ j) x = 2 ^ k \<and> x \<le> 2 ^ k \<and> (j < k \<longrightarrow> 2 ^ (k - 1) < x)"
proof (induction "2 ^ j :: nat" x arbitrary: j rule: np2_loop.induct)
  case (1 x)
  show ?case
  proof (cases "x \<le> 2 ^ j")
    case True
    then have "np2_loop (2 ^ j) x = 2 ^ j" by (subst np2_loop.simps) simp
    with True show ?thesis by (intro exI[of _ j]) simp
  next
    case False
    then have e: "np2_loop (2 ^ j) x = np2_loop (2 ^ Suc j) x"
      by (subst np2_loop.simps) simp
    from False have "\<not> (x \<le> 2 ^ j \<or> (2 ^ j :: nat) = 0)" by simp
    from "1.hyps"[OF this, of "Suc j"] obtain k where
      k: "Suc j \<le> k" "np2_loop (2 ^ Suc j) x = 2 ^ k" "x \<le> 2 ^ k" "Suc j < k \<longrightarrow> 2 ^ (k - 1) < x"
      by auto
    have "2 ^ (k - 1) < x"
    proof (cases "Suc j < k")
      case True with k show ?thesis by simp
    next
      case False
      with k have "k = Suc j" by simp
      with \<open>\<not> x \<le> 2 ^ j\<close> show ?thesis by simp
    qed
    with k e show ?thesis by (intro exI[of _ k]) simp
  qed
qed

lemma nextpowerof2_pow:
  "\<exists>k. nextpowerof2 x = 2 ^ k \<and> x \<le> 2 ^ k \<and> (0 < k \<longrightarrow> 2 ^ (k - 1) < x)"
  using np2_loop_pow[of 0 x] by (auto simp: nextpowerof2_def)

lemma nextpowerof2_least: "x \<le> 2 ^ j \<Longrightarrow> nextpowerof2 x \<le> 2 ^ j"
proof -
  assume a: "x \<le> 2 ^ j"
  from nextpowerof2_pow[of x] obtain k where
    k: "nextpowerof2 x = 2 ^ k" "0 < k \<longrightarrow> 2 ^ (k - 1) < x" by auto
  have "k \<le> j"
  proof (cases "0 < k")
    case True
    with k have "2 ^ (k - 1) < x" by simp
    from less_le_trans[OF this a] have "k - 1 < j" by simp
    with True show ?thesis by simp
  qed simp
  with k show ?thesis by simp
qed

lemma nextpowerof2_idem: "nextpowerof2 (2 ^ k) = 2 ^ k"
proof -
  have "nextpowerof2 (2 ^ k) \<le> 2 ^ k" by (rule nextpowerof2_least) simp
  moreover from nextpowerof2_pow[of "2 ^ k"] have "2 ^ k \<le> nextpowerof2 (2 ^ k)" by auto
  ultimately show ?thesis by simp
qed
















lemma pipe_loops_numeral:
  "pipe_read_loop (numeral n) p dst =
     (case pipe_wait_until_readable p of
        None \<Rightarrow> None
      | Some u \<Rightarrow> (case pipe_get_byte p of (c, p') \<Rightarrow> pipe_read_loop (pred_numeral n) p' (dst @ [c])))"
  "pipe_write_loop src i (numeral n) p =
     (case pipe_wait_until_writable p of
        None \<Rightarrow> None
      | Some u \<Rightarrow> pipe_write_loop src (Suc i) (pred_numeral n) (pipe_put_byte p (src i)))"
  "pipe_nbread_loop (numeral n) p dst =
     (if pipe_is_empty p then (dst, p)
      else (case pipe_get_byte p of (c, p') \<Rightarrow> pipe_nbread_loop (pred_numeral n) p' (dst @ [c])))"
  "pipe_nbwrite_loop src i (numeral n) p =
     (if pipe_is_full p then (i, p)
      else pipe_nbwrite_loop src (Suc i) (pred_numeral n) (pipe_put_byte p (src i)))"
  by (simp_all add: numeral_eq_Suc)

lemmas pipe_eval = mo_pipe_read_def mo_pipe_write_def mo_pipe_nbread_def mo_pipe_nbwrite_def
  pipe_wait_until_readable_eq pipe_wait_until_writable_eq pipe_is_empty_def pipe_is_full_def
  pipe_get_byte_def pipe_put_byte_def pipe_indices_def example_pipe_def example_pipe_ops_def
  pipe_loops_numeral




lemma example_pipe_blocks:
  "pipe_run example_pipe [Write example_src 9] = None"
  by (simp add: pipe_eval)


section \<open>Properties of the timer tick handler\<close>

lemma timer_collect_eq:
  "timer_collect ts now l ex =
     (drop (length (take (8 - length ex) (takeWhile (\<lambda>t. deadline_ticks (ts t) \<le> now) l))) l,
      ex @ take (8 - length ex) (takeWhile (\<lambda>t. deadline_ticks (ts t) \<le> now) l))"
proof (induction l arbitrary: ex)
  case Nil
  then show ?case by simp
next
  case (Cons t l)
  show ?case
  proof (cases "length ex < 8")
    case False
    then show ?thesis by simp
  next
    case True
    then obtain n where n: "8 - length ex = Suc n" by (cases "8 - length ex") auto
    then have n': "8 - length (ex @ [t]) = n" by simp
    show ?thesis
    proof (cases "deadline_ticks (ts t) \<le> now")
      case False
      with True show ?thesis by simp
    next
      case le: True
      from True le have "timer_collect ts now (t # l) ex = timer_collect ts now l (ex @ [t])" by simp
      also note Cons.IH[of "ex @ [t]"]
      finally show ?thesis using le n n' by simp
    qed
  qed
qed

lemma timer_collect_head:
  "timer_collect ts now l [] =
     (drop (length (timer_expired_head ts now l)) l, timer_expired_head ts now l)"
  by (simp add: timer_collect_eq timer_expired_head_def)

lemma get_timer_node_ok: "fst (get_timer_node True m) = True"
  by (simp add: get_timer_node_def split: option.splits)

lemma set_timer_insert_pos [simp]: "set (timer_insert_pos ts t l) = insert t (set l)"
  by (induction l) auto

lemma distinct_timer_insert_pos:
  "distinct l \<Longrightarrow> t \<notin> set l \<Longrightarrow> distinct (timer_insert_pos ts t l)"
  by (induction l) auto

lemma timer_sorted_insert_pos:
  "timer_sorted ts l \<Longrightarrow> timer_sorted ts (timer_insert_pos ts t l)"
proof (induction l)
  case Nil
  then show ?case by (simp add: timer_sorted_def)
next
  case (Cons c cs)
  show ?case
  proof (cases "deadline_ticks (ts t) < deadline_ticks (ts c)")
    case True
    with Cons.prems show ?thesis by (auto simp: timer_sorted_def)
  next
    case False
    then have le: "deadline_ticks (ts c) \<le> deadline_ticks (ts t)" by simp
    from Cons.prems have "timer_sorted ts cs" by (simp add: timer_sorted_def)
    from Cons.IH[OF this] Cons.prems False le show ?thesis
      by (auto simp: timer_sorted_def)
  qed
qed

lemma timer_sorted_upd:
  "t \<notin> set l \<Longrightarrow> timer_sorted (ts(t := v)) l = timer_sorted ts l"
proof -
  assume "t \<notin> set l"
  then have "map (\<lambda>x. deadline_ticks ((ts(t := v)) x)) l = map (\<lambda>x. deadline_ticks (ts x)) l"
    by (intro map_cong) auto
  then show ?thesis by (simp only: timer_sorted_def)
qed

lemma timer_calls_upd:
  "t \<notin> set ex \<Longrightarrow> timer_calls (ts(t := v)) ex = timer_calls ts ex"
proof -
  assume a: "t \<notin> set ex"
  then have "filter (\<lambda>x. callback ((ts(t := v)) x) \<noteq> 0) ex = filter (\<lambda>x. callback (ts x) \<noteq> 0) ex"
    by (intro filter_cong) auto
  moreover from a have "map (\<lambda>x. (callback ((ts(t := v)) x), arg ((ts(t := v)) x))) (filter (\<lambda>x. callback (ts x) \<noteq> 0) ex)
      = map (\<lambda>x. (callback (ts x), arg (ts x))) (filter (\<lambda>x. callback (ts x) \<noteq> 0) ex)"
    by (intro map_cong) auto
  ultimately show ?thesis by (simp only: timer_calls_def)
qed

lemma timer_fire_ok:
  "timer_fire ms True now t (st, l) =
     (st\<lparr>fired := fired st @ timer_calls (timers st) [t],
         pool_free_mask := snd (get_timer_node True (pool_free_mask st)),
         timers := (timers st)(t := timer_after ms now (timers st t))\<rparr>,
      timer_insert_pos ((timers st)(t := timer_after ms now (timers st t))) t l)"
  if "mode (timers st t) = TIMER_AUTORELOAD"
  using that get_timer_node_ok[of "pool_free_mask st"]
  by (cases "get_timer_node True (pool_free_mask st)")
     (auto simp: timer_fire_def timer_sorted_insert_def timer_after_def timer_calls_def Let_def)

lemma timer_fire_other:
  "timer_fire ms malloc_ok now t (st, l) =
     (st\<lparr>fired := fired st @ timer_calls (timers st) [t],
         timers := (timers st)(t := timer_after ms now (timers st t))\<rparr>, l)"
  if "mode (timers st t) \<noteq> TIMER_AUTORELOAD"
  using that
  by (auto simp: timer_fire_def timer_after_def timer_calls_def Let_def)

lemma timer_calls_Cons: "timer_calls ts (t # ex) = timer_calls ts [t] @ timer_calls ts ex"
  by (simp add: timer_calls_def)

lemma timer_process_props:
  assumes "distinct (ex @ l)"
  shows "fired (fst (timer_process ms True now ex (st, l))) = fired st @ timer_calls (timers st) ex \<and>
         (\<forall>x. timers (fst (timer_process ms True now ex (st, l))) x =
                (if x \<in> set ex then timer_after ms now (timers st x) else timers st x)) \<and>
         set (snd (timer_process ms True now ex (st, l))) =
           set l \<union> {x \<in> set ex. mode (timers st x) = TIMER_AUTORELOAD} \<and>
         distinct (snd (timer_process ms True now ex (st, l))) \<and>
         (timer_sorted (timers st) l \<longrightarrow>
            timer_sorted (timers (fst (timer_process ms True now ex (st, l))))
              (snd (timer_process ms True now ex (st, l))))"
  using assms
proof (induction ex arbitrary: st l)
  case Nil
  then show ?case by (simp add: timer_calls_def)
next
  case (Cons t ex)
  from Cons.prems have d: "t \<notin> set ex" "t \<notin> set l" "distinct ex" "distinct l" "set ex \<inter> set l = {}"
    by auto
  let ?ts1 = "(timers st)(t := timer_after ms now (timers st t))"
  obtain st1 l1 where f: "timer_fire ms True now t (st, l) = (st1, l1)"
    by (cases "timer_fire ms True now t (st, l)")
  have st1: "timers st1 = ?ts1" "fired st1 = fired st @ timer_calls (timers st) [t]"
    and l1: "l1 = (if mode (timers st t) = TIMER_AUTORELOAD then timer_insert_pos ?ts1 t l else l)"
    using f timer_fire_ok[of st t ms now l] timer_fire_other[of st t ms True now l]
    by (cases "mode (timers st t) = TIMER_AUTORELOAD"; simp)+
  have d1: "distinct (ex @ l1)"
    using d l1 by (auto simp: distinct_timer_insert_pos)
  have s1: "timer_sorted (timers st) l \<Longrightarrow> timer_sorted (timers st1) l1"
    using d l1 st1 by (auto simp: timer_sorted_upd timer_sorted_insert_pos)
  have c1: "timer_calls (timers st1) ex = timer_calls (timers st) ex"
    using d st1 by (simp add: timer_calls_upd)
  have m1: "{x \<in> set ex. mode (timers st1 x) = TIMER_AUTORELOAD}
             = {x \<in> set ex. mode (timers st x) = TIMER_AUTORELOAD}"
    using d st1 by auto
  have a1: "set l1 = set l \<union> {x \<in> {t}. mode (timers st x) = TIMER_AUTORELOAD}"
    using l1 by auto
  note ih = Cons.IH[OF d1, of st1]
  have p: "timer_process ms True now (t # ex) (st, l) = timer_process ms True now ex (st1, l1)"
    using f by simp
  from ih have "fired (fst (timer_process ms True now ex (st1, l1)))
      = fired st1 @ timer_calls (timers st1) ex" by blast
  then have "fired (fst (timer_process ms True now ex (st1, l1))) = fired st @ timer_calls (timers st) (t # ex)"
    using st1(2) c1 by (simp add: timer_calls_Cons[of _ t ex])
  moreover have "\<forall>x. timers (fst (timer_process ms True now ex (st1, l1))) x =
                (if x \<in> set (t # ex) then timer_after ms now (timers st x) else timers st x)"
    using ih st1 d by auto
  moreover have "set (snd (timer_process ms True now ex (st1, l1))) =
           set l \<union> {x \<in> set (t # ex). mode (timers st x) = TIMER_AUTORELOAD}"
    using ih m1 a1 by auto
  moreover have "distinct (snd (timer_process ms True now ex (st1, l1)))"
    using ih by simp
  moreover have "timer_sorted (timers st) l \<longrightarrow>
            timer_sorted (timers (fst (timer_process ms True now ex (st1, l1))))
              (snd (timer_process ms True now ex (st1, l1)))"
    using ih s1 by simp
  ultimately show ?case unfolding p by blast
qed

lemma timer_expired_head_prefix:
  "timer_expired_head ts now l @ drop (length (timer_expired_head ts now l)) l = l"
proof -
  let ?w = "takeWhile (\<lambda>t. deadline_ticks (ts t) \<le> now) l"
  have "?w = take (length ?w) l" by (rule takeWhile_eq_take)
  then have "take 8 ?w = take (min 8 (length ?w)) l" by (metis take_take)
  moreover have "length (take 8 ?w) = min 8 (length ?w)" by simp
  ultimately have "take 8 ?w = take (length (take 8 ?w)) l" by simp
  then show ?thesis
    unfolding timer_expired_head_def by (metis append_take_drop_id)
qed

lemma timer_tick_handler_run:
  assumes "timer_initialized st" "timer_list k = Some l"
  shows "timer_tick_handler ms ok st k =
           (fst (timer_process ms ok (ticks k) (timer_expired_head (timers st) (ticks k) l)
                   (st, drop (length (timer_expired_head (timers st) (ticks k) l)) l)),
            k\<lparr>timer_list := Some (snd (timer_process ms ok (ticks k)
                   (timer_expired_head (timers st) (ticks k) l)
                   (st, drop (length (timer_expired_head (timers st) (ticks k) l)) l)))\<rparr>)"
proof (cases l)
  case Nil
  with assms show ?thesis
    by (simp add: timer_tick_handler_def list_is_empty_def timer_expired_head_def)
next
  case (Cons a as)
  with assms show ?thesis
    by (simp add: timer_tick_handler_def list_is_empty_def timer_collect_head split: prod.splits)
qed

text \<open>
  Claim C8.  Let the timer subsystem be initialised, the active list hold every
  timer at most once, and list nodes be available.  On a tick the handler
  (\<open>_timer_tick_handler\<close> in the source) collects the expired timers at the head of the
  active list: the longest run of timers with \<open>deadline_ticks \<le> now\<close>, cut at 8
  (\<open>timer_expired_head\<close>).  It then calls the callback of each collected timer that has
  one, in that order.  An auto-reload timer gets the deadline
  \<open>now + MS_TO_TICKS(period_ms)\<close> and is back on the active list; a one-shot timer is
  marked disabled and stays off the list; no other timer changes.  The new active list
  is the timers left over plus the re-armed ones, and it is sorted by deadline when
  the old one was.
\<close>

theorem timer_tick_handler_fires_expired:
  assumes "timer_initialized st" "timer_list k = Some l" "distinct l"
  shows "fired (fst (timer_tick_handler ms True st k)) =
           fired st @ timer_calls (timers st) (timer_expired_head (timers st) (ticks k) l) \<and>
         (\<forall>t. timers (fst (timer_tick_handler ms True st k)) t =
                (if t \<in> set (timer_expired_head (timers st) (ticks k) l)
                 then timer_after ms (ticks k) (timers st t) else timers st t)) \<and>
         (\<exists>l'. timer_list (snd (timer_tick_handler ms True st k)) = Some l' \<and>
               set l' = set (drop (length (timer_expired_head (timers st) (ticks k) l)) l) \<union>
                        {t \<in> set (timer_expired_head (timers st) (ticks k) l).
                           mode (timers st t) = TIMER_AUTORELOAD} \<and>
               distinct l' \<and>
               (\<forall>t \<in> set (timer_expired_head (timers st) (ticks k) l).
                  (mode (timers st t) = TIMER_AUTORELOAD \<longrightarrow>
                     t \<in> set l' \<and>
                     deadline_ticks (timers (fst (timer_tick_handler ms True st k)) t) =
                       ticks k + ms (period_ms (timers st t))) \<and>
                  (mode (timers st t) = TIMER_ONESHOT \<longrightarrow>
                     t \<notin> set l' \<and>
                     mode (timers (fst (timer_tick_handler ms True st k)) t) = TIMER_DISABLED)) \<and>
               (timer_sorted (timers st) l \<longrightarrow>
                  timer_sorted (timers (fst (timer_tick_handler ms True st k))) l'))"
proof -
  let ?ex = "timer_expired_head (timers st) (ticks k) l"
  let ?l1 = "drop (length ?ex) l"
  let ?r = "timer_process ms True (ticks k) ?ex (st, ?l1)"
  have pre: "?ex @ ?l1 = l" by (rule timer_expired_head_prefix)
  with assms(3) have d: "distinct (?ex @ ?l1)" by simp
  then have dis: "set ?ex \<inter> set ?l1 = {}" by simp
  have run: "timer_tick_handler ms True st k = (fst ?r, k\<lparr>timer_list := Some (snd ?r)\<rparr>)"
    by (rule timer_tick_handler_run[OF assms(1,2)])
  note pp = timer_process_props[OF d, of ms "ticks k" st]
  from pp have 1: "fired (fst ?r) = fired st @ timer_calls (timers st) ?ex" by blast
  from pp have 2: "\<forall>t. timers (fst ?r) t =
      (if t \<in> set ?ex then timer_after ms (ticks k) (timers st t) else timers st t)" by blast
  from pp have 3: "set (snd ?r) = set ?l1 \<union> {t \<in> set ?ex. mode (timers st t) = TIMER_AUTORELOAD}"
    by blast
  from pp have 4: "distinct (snd ?r)" by blast
  have s0: "timer_sorted (timers st) l \<Longrightarrow> timer_sorted (timers st) ?l1"
    unfolding timer_sorted_def by (metis drop_map sorted_wrt_drop)
  from pp s0 have 5: "timer_sorted (timers st) l \<longrightarrow> timer_sorted (timers (fst ?r)) (snd ?r)"
    by blast
  have 6: "\<forall>t \<in> set ?ex.
      (mode (timers st t) = TIMER_AUTORELOAD \<longrightarrow>
         t \<in> set (snd ?r) \<and>
         deadline_ticks (timers (fst ?r) t) = ticks k + ms (period_ms (timers st t))) \<and>
      (mode (timers st t) = TIMER_ONESHOT \<longrightarrow>
         t \<notin> set (snd ?r) \<and> mode (timers (fst ?r) t) = TIMER_DISABLED)"
    using 2 3 dis by (auto simp: timer_after_def)
  show ?thesis
    unfolding run using 1 2 3 4 5 6 by simp
qed

lemma example_expired: "timer_expired_head example_timers 15 [11, 12, 13] = [11, 12]"
  by (simp add: timer_expired_head_def example_timers_def example_timer_def)

lemma example_tick_list:
  "timer_list (snd (timer_tick_handler example_ms_to_ticks True example_timer_statics kcb_timers))
     = Some [11, 13]"
proof -
  have a: "timer_initialized example_timer_statics" "timer_list kcb_timers = Some [11, 12, 13]"
    "ticks kcb_timers = 15" "timers example_timer_statics = example_timers"
    by (simp_all add: example_timer_statics_def kcb_timers_def)
  show ?thesis
    unfolding timer_tick_handler_run[OF a(1,2)] a example_expired
    by (simp add: timer_fire_ok timer_fire_other a timer_after_def example_timers_def
        example_timer_def example_ms_to_ticks_def)
qed

theorem timer_tick_handler_fires_expired_witness:
  "timer_initialized example_timer_statics \<and> timer_list kcb_timers = Some [11, 12, 13] \<and>
   distinct [11 :: nat, 12, 13] \<and> timer_sorted (timers example_timer_statics) [11, 12, 13] \<and>
   timer_expired_head (timers example_timer_statics) (ticks kcb_timers) [11, 12, 13] = [11, 12] \<and>
   fired (fst (timer_tick_handler example_ms_to_ticks True example_timer_statics kcb_timers))
     = [(100, 101), (200, 201)] \<and>
   timer_list (snd (timer_tick_handler example_ms_to_ticks True example_timer_statics kcb_timers))
     = Some [11, 13] \<and>
   deadline_ticks (timers (fst (timer_tick_handler example_ms_to_ticks True example_timer_statics kcb_timers)) 11)
     = 20 \<and>
   mode (timers (fst (timer_tick_handler example_ms_to_ticks True example_timer_statics kcb_timers)) 12)
     = TIMER_DISABLED \<and>
   timers (fst (timer_tick_handler example_ms_to_ticks True example_timer_statics kcb_timers)) 13
     = example_timers 13 \<and>
   timer_sorted (timers (fst (timer_tick_handler example_ms_to_ticks True example_timer_statics kcb_timers)))
     [11, 13]"
proof -
  have a: "timer_initialized example_timer_statics" "timer_list kcb_timers = Some [11, 12, 13]"
    "distinct [11 :: nat, 12, 13]" "ticks kcb_timers = 15" "timers example_timer_statics = example_timers"
    "fired example_timer_statics = []"
    by (simp_all add: example_timer_statics_def kcb_timers_def)
  have s: "timer_sorted (timers example_timer_statics) [11, 12, 13]"
    by (simp add: timer_sorted_def a example_timers_def example_timer_def)
  have e: "timer_expired_head (timers example_timer_statics) (ticks kcb_timers) [11, 12, 13] = [11, 12]"
    by (simp add: a example_expired)
  note t = timer_tick_handler_fires_expired[OF a(1) a(2) a(3), of example_ms_to_ticks, unfolded e]
  from t have 1: "fired (fst (timer_tick_handler example_ms_to_ticks True example_timer_statics kcb_timers))
     = [(100, 101), (200, 201)]"
    by (simp add: a timer_calls_def example_timers_def example_timer_def)
  from t have 2: "\<forall>t. timers (fst (timer_tick_handler example_ms_to_ticks True example_timer_statics kcb_timers)) t =
      (if t \<in> set [11, 12] then timer_after example_ms_to_ticks (ticks kcb_timers) (timers example_timer_statics t)
       else timers example_timer_statics t)" by blast
  from 2 have 3: "deadline_ticks (timers (fst (timer_tick_handler example_ms_to_ticks True example_timer_statics kcb_timers)) 11) = 20"
    "mode (timers (fst (timer_tick_handler example_ms_to_ticks True example_timer_statics kcb_timers)) 12) = TIMER_DISABLED"
    "timers (fst (timer_tick_handler example_ms_to_ticks True example_timer_statics kcb_timers)) 13 = example_timers 13"
    by (simp_all add: a timer_after_def example_timers_def example_timer_def example_ms_to_ticks_def)
  from t s example_tick_list
  have 4: "timer_sorted (timers (fst (timer_tick_handler example_ms_to_ticks True example_timer_statics kcb_timers))) [11, 13]"
    by auto
  from a s e 1 3 4 example_tick_list show ?thesis by simp
qed

end
